theory Spec2Isabelle
  imports Complex_Main "HOL-Library.AList"
begin

section \<open>Invoice reimbursement analysis: the request pipeline of Invoice\_Reimbursement.py\<close>

text \<open>
  The module is a pipeline around three libraries and one remote model: PyPDF2 reads a
  PDF, zipfile reads an archive, the model returns free text, json decodes it. Those
  collaborators are not code of the module; they enter the embedding as the fields of an
  environment record, and every function of the module is translated over that record.

  Python strings are modelled as \<^typ>\<open>string\<close>, a character being a code point below
  256 (the Latin-1 range); uploaded bytes are lists of 8-bit characters.
\<close>

subsection \<open>Python values and exceptions\<close>

type_synonym bytes = "char list"

text \<open>A Python float: a finite double (its exact value, a rational) or one of the specials.\<close>

datatype py_float = Finite rat | NaN | Infinity | NegInfinity

text \<open>What \<open>json.loads\<close> returns: None, bool, int, float, str, list, dict (items in order).\<close>

datatype pyval =
    PyNone
  | PyBool bool
  | PyInt int
  | PyFloat py_float
  | PyStr string
  | PyList "pyval list"
  | PyDict "(string \<times> pyval) list"

datatype py_op = Subscript | Iterate | IntConversion

text \<open>
  The exceptions that occur. \<open>HTTPException\<close> is FastAPI's, with its status code and
  detail; it is a subclass of \<open>Exception\<close>, so an \<open>except Exception\<close> clause catches it.
  \<open>Error m\<close> is any exception raised by a library, \<open>m\<close> being its \<open>str(e)\<close>.
\<close>

datatype exn =
    HTTPException nat string
  | KeyError string
  | TypeError py_op pyval
  | ValueError pyval
  | OverflowError
  | ValidationError "(string \<times> pyval) list"
  | Error string

fun is_HTTPException :: "exn \<Rightarrow> bool" where
  "is_HTTPException (HTTPException c d) = True"
| "is_HTTPException e = False"

subsection \<open>The pydantic models\<close>

record InvoiceAnalysis =
  invoice_id :: string
  reimbursement_status :: string
  reimbursable_amount :: int
  reason :: string

record ReimbursementResponse =
  analyses :: "InvoiceAnalysis list"
  total_invoices_processed :: int

subsection \<open>The collaborators\<close>

text \<open>
  A member of an archive as \<open>zipfile\<close> lists it: its recorded path, and what
  \<open>zip_ref.open(file_info).read()\<close> gives (the bytes, or the message of the exception).
\<close>

record ZipInfo =
  filename :: string
  member_read :: "string + bytes"

text \<open>An upload: its declared name and what \<open>await file.read()\<close> gives.\<close>

record UploadFile =
  upload_filename :: string
  upload_read :: "string + bytes"

text \<open>
  \<^item> \<open>PdfReader b\<close>: \<open>PyPDF2.PdfReader(io.BytesIO(b)).pages\<close>, each page standing for what its
    \<open>extract_text()\<close> gives; \<open>Inl m\<close> is an exception with message \<open>m\<close>.
  \<^item> \<open>ZipFile b\<close>: \<open>zipfile.ZipFile(io.BytesIO(b), 'r').infolist()\<close>.
  \<^item> \<open>generate_content p\<close>: the \<open>.text\<close> of
    \<open>model.generate_content([OPTIMIZED_SYSTEM_PROMPT, p], generation_config = ...)\<close>.
  \<^item> \<open>json_loads\<close>: \<open>json.loads\<close>.
  \<^item> \<open>exc_str\<close>: Python's \<open>str(e)\<close> on the exceptions that carry no message here
    (Starlette renders an \<open>HTTPException\<close>, CPython a \<open>TypeError\<close>, and so on).
  \<^item> \<open>int_str\<close>: \<open>int(s)\<close> on a string, \<open>None\<close> when it raises \<open>ValueError\<close>.
  \<^item> \<open>pydantic_str\<close>: pydantic's validation of a value that is not a \<open>str\<close> for a field
    declared \<open>str\<close>; \<open>None\<close> when it is rejected.
\<close>

record env =
  PdfReader :: "bytes \<Rightarrow> string + (string + string) list"
  ZipFile :: "bytes \<Rightarrow> string + ZipInfo list"
  generate_content :: "string \<Rightarrow> string + string"
  json_loads :: "string \<Rightarrow> string + pyval"
  exc_str :: "exn \<Rightarrow> string"
  int_str :: "string \<Rightarrow> int option"
  pydantic_str :: "pyval \<Rightarrow> string option"

definition py_str :: "env \<Rightarrow> exn \<Rightarrow> string" where
  "py_str env e = (case e of Error m \<Rightarrow> m | _ \<Rightarrow> exc_str env e)"

subsection \<open>String methods\<close>

definition nl :: string where
  "nl = [CHR 0x0A]"

text \<open>\<open>str.isspace\<close> on one character, for code points below 256.\<close>

definition isspace :: "char \<Rightarrow> bool" where
  "isspace c = (let n = (of_char c :: nat) in
     (9 \<le> n \<and> n \<le> 13) \<or> (28 \<le> n \<and> n \<le> 32) \<or> n = 133 \<or> n = 160)"

text \<open>\<open>s.strip()\<close>: whitespace removed at both ends.\<close>

definition strip :: "string \<Rightarrow> string" where
  "strip s = rev (dropWhile isspace (rev (dropWhile isspace s)))"

text \<open>\<open>str.lower\<close>: A-Z, and the upper-case letters of Latin-1 (all but the sign at 0xD7).\<close>

definition lower_char :: "char \<Rightarrow> char" where
  "lower_char c = (let n = (of_char c :: nat) in
     if (65 \<le> n \<and> n \<le> 90) \<or> (192 \<le> n \<and> n \<le> 222 \<and> n \<noteq> 215)
     then char_of (n + 32) else c)"

definition lower :: "string \<Rightarrow> string" where
  "lower s = map lower_char s"

text \<open>\<open>s.endswith(suffix)\<close>.\<close>

definition endswith :: "string \<Rightarrow> string \<Rightarrow> bool" where
  "endswith s suffix = (length suffix \<le> length s \<and> drop (length s - length suffix) s = suffix)"

subsection \<open>The regular expression\<close>

text \<open>
  \<open>re.search(r'\[.*\]', text, re.DOTALL)\<close>. The engine tries each start position from
  the left; at a position holding \<open>[\<close> the greedy \<open>.*\<close> (which matches newlines too) takes
  as much as it can and gives characters back until a \<open>]\<close> follows.
  \<open>longest_closing cs\<close> is that match of \<open>.*\]\<close> anchored at the start of \<open>cs\<close>.
\<close>

fun longest_closing :: "string \<Rightarrow> string option" where
  "longest_closing [] = None"
| "longest_closing (c # cs) =
     (case longest_closing cs of
        Some m \<Rightarrow> Some (c # m)
      | None \<Rightarrow> if c = CHR '']'' then Some [c] else None)"

fun re_search_array :: "string \<Rightarrow> string option" where
  "re_search_array [] = None"
| "re_search_array (c # cs) =
     (if c = CHR ''[''
      then (case longest_closing cs of
              Some m \<Rightarrow> Some (c # m)
            | None \<Rightarrow> re_search_array cs)
      else re_search_array cs)"

subsection \<open>Raising and catching\<close>

text \<open>A library call that fails raises an exception whose \<open>str\<close> is the message.\<close>

definition raised :: "string + 'a \<Rightarrow> exn + 'a" where
  "raised r = (case r of Inl m \<Rightarrow> Inl (Error m) | Inr x \<Rightarrow> Inr x)"

subsection \<open>\<open>extract_text_from_pdf\<close>\<close>

text \<open>The loop over the pages: \<open>text += page.extract_text() + "\n"\<close>.\<close>

fun join_pages :: "(string + string) list \<Rightarrow> string \<Rightarrow> string + string" where
  "join_pages [] text = Inr text"
| "join_pages (page # pages) text =
     (case page of
        Inl m \<Rightarrow> Inl m
      | Inr t \<Rightarrow> join_pages pages (text @ t @ nl))"

definition extract_text_from_pdf :: "env \<Rightarrow> bytes \<Rightarrow> exn + string" where
  "extract_text_from_pdf env pdf_file_bytes =
     (case (case PdfReader env pdf_file_bytes of
              Inl m \<Rightarrow> Inl (Error m)
            | Inr pages \<Rightarrow> raised (join_pages pages [])) of
        Inl e \<Rightarrow> Inl (HTTPException 400 (''Error extracting PDF text: '' @ py_str env e))
      | Inr text \<Rightarrow> Inr (strip text))"

subsection \<open>\<open>extract_invoices_from_zip\<close>\<close>

text \<open>
  The dictionary \<open>invoices\<close> is an association list in insertion order;
  \<open>invoices[k] = v\<close> is \<^const>\<open>AList.update\<close>: a key already present keeps its
  place and takes the new value, a new key goes to the end.
  \<open>load_members\<close> is the loop over \<open>zip_ref.infolist()\<close>, \<open>is_invoice\<close> its test
  \<open>file_info.filename.lower().endswith('.pdf')\<close>.
\<close>

abbreviation is_invoice :: "ZipInfo \<Rightarrow> bool" where
  "is_invoice file_info \<equiv> endswith (lower (filename file_info)) ''.pdf''"

fun load_members :: "env \<Rightarrow> ZipInfo list \<Rightarrow> (string \<times> string) list \<Rightarrow> exn + (string \<times> string) list" where
  "load_members env [] invoices = Inr invoices"
| "load_members env (file_info # rest) invoices =
     (if is_invoice file_info
      then (case raised (member_read file_info) of
              Inl e \<Rightarrow> Inl e
            | Inr pdf_bytes \<Rightarrow>
                (case extract_text_from_pdf env pdf_bytes of
                   Inl e \<Rightarrow> Inl e
                 | Inr invoice_text \<Rightarrow>
                     load_members env rest (AList.update (filename file_info) invoice_text invoices)))
      else load_members env rest invoices)"

definition extract_invoices_from_zip :: "env \<Rightarrow> bytes \<Rightarrow> exn + (string \<times> string) list" where
  "extract_invoices_from_zip env zip_file_bytes =
     (case (case raised (ZipFile env zip_file_bytes) of
              Inl e \<Rightarrow> Inl e
            | Inr infolist \<Rightarrow> load_members env infolist []) of
        Inl e \<Rightarrow> Inl (HTTPException 400 (''Error processing ZIP file: '' @ py_str env e))
      | Inr invoices \<Rightarrow> Inr invoices)"

subsection \<open>\<open>analyze_invoices_with_llm\<close>\<close>

definition combined_prompt :: "string \<Rightarrow> (string \<times> string) list \<Rightarrow> string" where
  "combined_prompt policy_text invoices =
     '' COMPANY REIMBURSEMENT POLICY:'' @ policy_text @ '' INVOICES TO ANALYZE:''
     @ concat (map (\<lambda>(filename, invoice_text).
         nl @ ''--- INVOICE: '' @ filename @ '' ---'' @ nl @ invoice_text @ nl) invoices)
     @ nl @ ''Please analyze each invoice against the policy and provide a JSON array response with the exact format specified in the system prompt.'' @ nl"

text \<open>\<open>analysis_data[k]\<close> for a string key \<open>k\<close>.\<close>

definition getitem :: "pyval \<Rightarrow> string \<Rightarrow> exn + pyval" where
  "getitem v k =
     (case v of
        PyDict items \<Rightarrow> (case map_of items k of Some x \<Rightarrow> Inr x | None \<Rightarrow> Inl (KeyError k))
      | _ \<Rightarrow> Inl (TypeError Subscript v))"

text \<open>\<open>float.__trunc__\<close>: the integer part, towards zero.\<close>

definition trunc :: "rat \<Rightarrow> int" where
  "trunc q = (if 0 \<le> q then \<lfloor>q\<rfloor> else \<lceil>q\<rceil>)"

text \<open>\<open>int(x)\<close>.\<close>

fun py_int :: "env \<Rightarrow> pyval \<Rightarrow> exn + int" where
  "py_int env (PyInt n) = Inr n"
| "py_int env (PyBool b) = Inr (if b then 1 else 0)"
| "py_int env (PyFloat (Finite q)) = Inr (trunc q)"
| "py_int env (PyFloat NaN) = Inl (ValueError (PyFloat NaN))"
| "py_int env (PyFloat f) = Inl OverflowError"
| "py_int env (PyStr s) = (case int_str env s of Some n \<Rightarrow> Inr n | None \<Rightarrow> Inl (ValueError (PyStr s)))"
| "py_int env v = Inl (TypeError IntConversion v)"

text \<open>What a \<open>for\<close> loop iterates over: a list's elements, a dict's keys, a string's characters.\<close>

fun py_iter :: "pyval \<Rightarrow> exn + pyval list" where
  "py_iter (PyList xs) = Inr xs"
| "py_iter (PyDict items) = Inr (map (\<lambda>(k, v). PyStr k) items)"
| "py_iter (PyStr s) = Inr (map (\<lambda>c. PyStr [c]) s)"
| "py_iter v = Inl (TypeError Iterate v)"

text \<open>
  \<open>InvoiceAnalysis(invoice_id = a, reimbursement_status = b, reimbursable_amount = n, reason = c)\<close>:
  pydantic validates the three \<open>str\<close> fields (a \<open>str\<close> is taken as it is) and reports the
  rejected ones in one \<open>ValidationError\<close>; \<open>n\<close> is already an \<open>int\<close>.
\<close>

definition validate_str :: "env \<Rightarrow> pyval \<Rightarrow> string option" where
  "validate_str env v = (case v of PyStr s \<Rightarrow> Some s | _ \<Rightarrow> pydantic_str env v)"

definition InvoiceAnalysis_init :: "env \<Rightarrow> pyval \<Rightarrow> pyval \<Rightarrow> int \<Rightarrow> pyval \<Rightarrow> exn + InvoiceAnalysis" where
  "InvoiceAnalysis_init env a b n c =
     (case (validate_str env a, validate_str env b, validate_str env c) of
        (Some i, Some s, Some r) \<Rightarrow>
          Inr \<lparr>invoice_id = i, reimbursement_status = s, reimbursable_amount = n, reason = r\<rparr>
      | _ \<Rightarrow>
          Inl (ValidationError (filter (\<lambda>(f, v). validate_str env v = None)
            [(''invoice_id'', a), (''reimbursement_status'', b), (''reason'', c)])))"

text \<open>The body of the conversion loop, for one element of the decoded value.\<close>

definition to_analysis :: "env \<Rightarrow> pyval \<Rightarrow> exn + InvoiceAnalysis" where
  "to_analysis env analysis_data =
     (case getitem analysis_data ''invoice_id'' of Inl e \<Rightarrow> Inl e | Inr a \<Rightarrow>
     (case getitem analysis_data ''reimbursement_status'' of Inl e \<Rightarrow> Inl e | Inr b \<Rightarrow>
     (case getitem analysis_data ''reimbursable_amount'' of Inl e \<Rightarrow> Inl e | Inr x \<Rightarrow>
     (case py_int env x of Inl e \<Rightarrow> Inl e | Inr n \<Rightarrow>
     (case getitem analysis_data ''reason'' of Inl e \<Rightarrow> Inl e | Inr c \<Rightarrow>
        InvoiceAnalysis_init env a b n c)))))"

text \<open>The conversion loop: \<open>analyses.append(analysis)\<close> for each element (the list built so far
  is \<open>so_far\<close>), the first failure aborting.\<close>

fun convert_all :: "env \<Rightarrow> pyval list \<Rightarrow> InvoiceAnalysis list \<Rightarrow> exn + InvoiceAnalysis list" where
  "convert_all env [] so_far = Inr so_far"
| "convert_all env (analysis_data # rest) so_far =
     (case to_analysis env analysis_data of
        Inl e \<Rightarrow> Inl e
      | Inr analysis \<Rightarrow> convert_all env rest (so_far @ [analysis]))"

text \<open>
  The value the text is decoded to (the variable \<open>analyses_data\<close>): the match of the
  regular expression when there is one, the whole text otherwise.
\<close>

definition analyses_data :: "env \<Rightarrow> string \<Rightarrow> string + pyval" where
  "analyses_data env response_text =
     (case re_search_array response_text of
        Some json_str \<Rightarrow> json_loads env json_str
      | None \<Rightarrow> json_loads env response_text)"

text \<open>
  The response parser: from the model's text to the result records, as the statements
  after \<open>response_text = response.text\<close> do it, before the function's \<open>except\<close> clause.
\<close>

definition parse_response :: "env \<Rightarrow> string \<Rightarrow> exn + InvoiceAnalysis list" where
  "parse_response env response_text =
     (case raised (analyses_data env response_text) of
        Inl e \<Rightarrow> Inl e
      | Inr data \<Rightarrow>
          (case py_iter data of
             Inl e \<Rightarrow> Inl e
           | Inr elements \<Rightarrow> convert_all env elements []))"

definition analyze_invoices_with_llm :: "env \<Rightarrow> string \<Rightarrow> (string \<times> string) list \<Rightarrow> exn + InvoiceAnalysis list" where
  "analyze_invoices_with_llm env policy_text invoices =
     (case (case raised (generate_content env (combined_prompt policy_text invoices)) of
              Inl e \<Rightarrow> Inl e
            | Inr response_text \<Rightarrow> parse_response env response_text) of
        Inl e \<Rightarrow> Inl (HTTPException 500 (''LLM analysis failed: '' @ py_str env e))
      | Inr results \<Rightarrow> Inr results)"

subsection \<open>\<open>analyze_invoices\<close>\<close>

text \<open>
  The orchestrator returns its result together with a log of the steps it started, in
  order: reading an upload, and each call of a component. The model is invoked inside
  \<open>analyze_invoices_with_llm\<close> and nowhere else.
\<close>

datatype event = ReadPolicy | ExtractPolicyText | ReadArchive | LoadInvoices | ModelAnalysis

text \<open>One logged step: an exception ends the run, a value goes to the rest of the body.\<close>

definition step :: "event \<Rightarrow> exn + 'a \<Rightarrow> ('a \<Rightarrow> (exn + 'b) \<times> event list) \<Rightarrow> (exn + 'b) \<times> event list" where
  "step ev r k =
     (case r of
        Inl e \<Rightarrow> (Inl e, [ev])
      | Inr x \<Rightarrow> (case k x of (r', evs) \<Rightarrow> (r', ev # evs)))"

text \<open>The body of the \<open>try\<close> block.\<close>

definition analyze_invoices_try :: "env \<Rightarrow> UploadFile \<Rightarrow> UploadFile \<Rightarrow> (exn + ReimbursementResponse) \<times> event list" where
  "analyze_invoices_try env hr_policy invoices_zip =
     step ReadPolicy (raised (upload_read hr_policy)) (\<lambda>policy_bytes.
     step ExtractPolicyText (extract_text_from_pdf env policy_bytes) (\<lambda>policy_text.
     if strip policy_text = []
     then (Inl (HTTPException 400 ''Could not extract text from policy PDF''), [])
     else
     step ReadArchive (raised (upload_read invoices_zip)) (\<lambda>invoices_bytes.
     step LoadInvoices (extract_invoices_from_zip env invoices_bytes) (\<lambda>invoices.
     if invoices = []
     then (Inl (HTTPException 400 ''No PDF invoices found in ZIP file''), [])
     else
     step ModelAnalysis (analyze_invoices_with_llm env policy_text invoices) (\<lambda>results.
     (Inr \<lparr>analyses = results, total_invoices_processed = int (length results)\<rparr>, []))))))"

text \<open>
  The two file-type checks, then the \<open>try\<close> block with its two handlers:
  \<open>except HTTPException: raise\<close>, then \<open>except Exception\<close>.
\<close>

definition analyze_invoices :: "env \<Rightarrow> UploadFile \<Rightarrow> UploadFile \<Rightarrow> (exn + ReimbursementResponse) \<times> event list" where
  "analyze_invoices env hr_policy invoices_zip =
     (if \<not> endswith (lower (upload_filename hr_policy)) ''.pdf''
      then (Inl (HTTPException 400 ''HR policy must be a PDF file''), [])
      else if \<not> endswith (lower (upload_filename invoices_zip)) ''.zip''
      then (Inl (HTTPException 400 ''Invoices must be in a ZIP file''), [])
      else (case analyze_invoices_try env hr_policy invoices_zip of
              (Inl e, evs) \<Rightarrow>
                (if is_HTTPException e then (Inl e, evs)
                 else (Inl (HTTPException 500 (''Internal server error: '' @ py_str env e)), evs))
            | (Inr response, evs) \<Rightarrow> (Inr response, evs)))"

section \<open>Notions used in the statements\<close>

text \<open>
  The well-formed JSON arrays a text contains: the positions \<open>(i, j)\<close> of a \<open>[\<close> and a
  later \<open>]\<close> such that \<open>json.loads\<close> decodes the text between them (both included) to a list.
\<close>

definition json_arrays :: "env \<Rightarrow> string \<Rightarrow> (nat \<times> nat) list" where
  "json_arrays env s =
     [(i, j). i \<leftarrow> [0..<length s], j \<leftarrow> [i + 1..<length s],
        s ! i = CHR ''['' \<and> s ! j = CHR '']''
        \<and> (case json_loads env (take (j + 1 - i) (drop i s)) of Inr (PyList xs) \<Rightarrow> True | _ \<Rightarrow> False)]"

text \<open>A member whose bytes are read and whose text is extracted without an exception.\<close>

definition member_loads :: "env \<Rightarrow> ZipInfo \<Rightarrow> bool" where
  "member_loads env file_info =
     (case member_read file_info of
        Inr pdf_bytes \<Rightarrow> (case extract_text_from_pdf env pdf_bytes of Inr t \<Rightarrow> True | Inl e \<Rightarrow> False)
      | Inl m \<Rightarrow> False)"

text \<open>The text extracted from a member, when it is read and extracted without an exception.\<close>

definition member_text :: "env \<Rightarrow> ZipInfo \<Rightarrow> string option" where
  "member_text env file_info =
     (case member_read file_info of
        Inr pdf_bytes \<Rightarrow> (case extract_text_from_pdf env pdf_bytes of Inr t \<Rightarrow> Some t | Inl e \<Rightarrow> None)
      | Inl m \<Rightarrow> None)"

text \<open>The last PDF member an archive lists under a path, if there is one.\<close>

definition last_invoice :: "ZipInfo list \<Rightarrow> string \<Rightarrow> ZipInfo option" where
  "last_invoice ms path =
     (case filter (\<lambda>m. is_invoice m \<and> filename m = path) (rev ms) of
        [] \<Rightarrow> None
      | m # earlier \<Rightarrow> Some m)"

text \<open>The elements of a list in order, each once, at its first occurrence.\<close>

fun first_occurrences :: "'a list \<Rightarrow> 'a list" where
  "first_occurrences [] = []"
| "first_occurrences (x # xs) = x # filter (\<lambda>y. y \<noteq> x) (first_occurrences xs)"

text \<open>
  A request that passes every step before the model analysis: both names are accepted,
  the policy is read and gives the text \<open>policy_text\<close>, which is not blank, and the archive
  is read and gives the mapping \<open>invoices\<close>.
\<close>

definition request_loads :: "env \<Rightarrow> UploadFile \<Rightarrow> UploadFile \<Rightarrow> string \<Rightarrow> (string \<times> string) list \<Rightarrow> bool" where
  "request_loads env hr_policy invoices_zip policy_text invoices =
     (endswith (lower (upload_filename hr_policy)) ''.pdf''
      \<and> endswith (lower (upload_filename invoices_zip)) ''.zip''
      \<and> (case upload_read hr_policy of
            Inr policy_bytes \<Rightarrow> extract_text_from_pdf env policy_bytes = Inr policy_text
          | Inl m \<Rightarrow> False)
      \<and> strip policy_text \<noteq> []
      \<and> (case upload_read invoices_zip of
            Inr invoices_bytes \<Rightarrow> extract_invoices_from_zip env invoices_bytes = Inr invoices
          | Inl m \<Rightarrow> False))"

section \<open>A sample environment\<close>

text \<open>
  Concrete collaborators, for the examples that follow the theorems. Each is a finite
  excerpt of what the library does: \<open>sample_PdfReader\<close> and \<open>sample_ZipFile\<close> stand for the
  libraries on a few uploads (named by their bytes); \<open>sample_json_loads\<close> is \<open>json.loads\<close>
  on the texts listed and on prose that begins with no JSON value (its last line);
  \<open>sample_exc_str\<close> renders an \<open>HTTPException\<close> as Starlette's \<open>__str__\<close> does (status code,
  colon, detail) and a \<open>KeyError\<close> as CPython does, the other exceptions being raised by no
  example and given no message; \<open>sample_int_str\<close> reads a decimal literal with an optional
  sign (not the underscores \<open>int\<close> also accepts); and no value but a \<open>str\<close> is valid for a
  \<open>str\<close> field, as in pydantic 2.
  \<open>6037638250443571 / 140737488355328\<close> is the double nearest to 42.9, and 43 the double
  nearest to 42.99999999999999999. \<open>decimal_value\<close> is the number a decimal literal
  (digits, a point, digits) denotes.
\<close>

fun decimal :: "nat \<Rightarrow> string" where
  "decimal n = (if n < 10 then [char_of (48 + n)] else decimal (n div 10) @ [char_of (48 + n mod 10)])"

definition sample_exc_str :: "exn \<Rightarrow> string" where
  "sample_exc_str e =
     (case e of
        HTTPException c d \<Rightarrow> decimal c @ '': '' @ d
      | KeyError k \<Rightarrow> [CHR 0x27] @ k @ [CHR 0x27]
      | _ \<Rightarrow> [])"

definition sample_text :: "string \<Rightarrow> string" where
  \<open>sample_text amount =
     ''[{"invoice_id":"a.pdf","reimbursement_status":"Fully Reimbursed","reimbursable_amount":''
     @ amount @ '',"reason":"Within meal limit per Section 3.2"}]''\<close>

definition sample_element :: "pyval \<Rightarrow> pyval" where
  "sample_element amount =
     PyDict [(''invoice_id'', PyStr ''a.pdf''),
             (''reimbursement_status'', PyStr ''Fully Reimbursed''),
             (''reimbursable_amount'', amount),
             (''reason'', PyStr ''Within meal limit per Section 3.2'')]"

definition sample_json_loads :: "string \<Rightarrow> string + pyval" where
  "sample_json_loads s =
     (if s = sample_text ''50'' then Inr (PyList [sample_element (PyInt 50)])
      else if s = sample_text ''-5'' then Inr (PyList [sample_element (PyInt (- 5))])
      else if s = sample_text ''42.9''
        then Inr (PyList [sample_element (PyFloat (Finite (6037638250443571 / 140737488355328)))])
      else if s = sample_text ''42.99999999999999999''
        then Inr (PyList [sample_element (PyFloat (Finite 43))])
      else if s = ''[]'' then Inr (PyList [])
      else if s = ''[note]'' \<or> s = ''[note] []'' then Inl ''Expecting value: line 1 column 2 (char 1)''
      else Inl ''Expecting value: line 1 column 1 (char 0)'')"

definition sample_PdfReader :: "bytes \<Rightarrow> string + (string + string) list" where
  "sample_PdfReader b =
     (if b = ''%PDF policy'' then Inr [Inr ''Meals are reimbursed up to 50 per day. '', Inr ''Alcohol is excluded.'']
      else if b = ''%PDF lunch'' then Inr [Inr ''Lunch 50'']
      else if b = ''%PDF dinner'' then Inr [Inr ''Dinner 80'']
      else if b = ''%PDF scan'' then Inr [Inr []]
      else Inl ''EOF marker not found'')"

definition sample_ZipFile :: "bytes \<Rightarrow> string + ZipInfo list" where
  "sample_ZipFile b =
     (if b = ''PK one'' then
        Inr [\<lparr>filename = ''inv/A.PDF'', member_read = Inr ''%PDF lunch''\<rparr>,
             \<lparr>filename = ''notes.txt'', member_read = Inr ''hello''\<rparr>]
      else if b = ''PK twice'' then
        Inr [\<lparr>filename = ''a.pdf'', member_read = Inr ''%PDF lunch''\<rparr>,
             \<lparr>filename = ''a.pdf'', member_read = Inr ''%PDF dinner''\<rparr>]
      else if b = ''PK broken member'' then
        Inr [\<lparr>filename = ''a.pdf'', member_read = Inr ''not a pdf''\<rparr>]
      else if b = ''PK no pdf'' then
        Inr [\<lparr>filename = ''notes.txt'', member_read = Inr ''hello''\<rparr>]
      else Inl ''File is not a zip file'')"

fun digits_value :: "string \<Rightarrow> nat \<Rightarrow> nat option" where
  "digits_value [] n = Some n"
| "digits_value (c # cs) n =
     (let d = (of_char c :: nat)
      in if 48 \<le> d \<and> d \<le> 57 then digits_value cs (10 * n + (d - 48)) else None)"

definition sample_int_str :: "string \<Rightarrow> int option" where
  "sample_int_str s =
     (case strip s of
        [] \<Rightarrow> None
      | c # cs \<Rightarrow>
          if c = CHR ''-'' then (if cs = [] then None else map_option (\<lambda>n. - int n) (digits_value cs 0))
          else if c = CHR ''+'' then (if cs = [] then None else map_option int (digits_value cs 0))
          else map_option int (digits_value (c # cs) 0))"

fun digits_int :: "string \<Rightarrow> int \<Rightarrow> int option" where
  "digits_int [] n = Some n"
| "digits_int (c # cs) n =
     (let d = (of_char c :: int)
      in if 48 \<le> d \<and> d \<le> 57 then digits_int cs (10 * n + (d - 48)) else None)"

definition decimal_value :: "string \<Rightarrow> rat option" where
  "decimal_value s =
     (let whole = takeWhile (\<lambda>c. c \<noteq> CHR ''.'') s;
          frac = drop 1 (dropWhile (\<lambda>c. c \<noteq> CHR ''.'') s)
      in case (digits_int whole 0, digits_int frac 0) of
           (Some w, Some f) \<Rightarrow> Some (of_int w + of_int f / 10 ^ length frac)
         | _ \<Rightarrow> None)"

definition sample_env :: "string \<Rightarrow> env" where
  "sample_env response_text =
     \<lparr>PdfReader = sample_PdfReader,
      ZipFile = sample_ZipFile,
      generate_content = (\<lambda>prompt. Inr response_text),
      json_loads = sample_json_loads,
      exc_str = sample_exc_str,
      int_str = sample_int_str,
      pydantic_str = (\<lambda>v. None)\<rparr>"

definition sample_policy_text :: string where
  "sample_policy_text = ''Meals are reimbursed up to 50 per day. '' @ nl @ ''Alcohol is excluded.''"

definition sample_policy :: UploadFile where
  "sample_policy = \<lparr>upload_filename = ''policy.pdf'', upload_read = Inr ''%PDF policy''\<rparr>"

definition sample_archive :: "bytes \<Rightarrow> UploadFile" where
  "sample_archive b = \<lparr>upload_filename = ''invoices.zip'', upload_read = Inr b\<rparr>"

definition sample_policy_of :: "string + bytes \<Rightarrow> UploadFile" where
  "sample_policy_of r = \<lparr>upload_filename = ''policy.pdf'', upload_read = r\<rparr>"

definition sample_archive_of :: "string + bytes \<Rightarrow> UploadFile" where
  "sample_archive_of r = \<lparr>upload_filename = ''invoices.zip'', upload_read = r\<rparr>"

definition sample_analysis :: "int \<Rightarrow> InvoiceAnalysis" where
  "sample_analysis n =
     \<lparr>invoice_id = ''a.pdf'', reimbursement_status = ''Fully Reimbursed'',
      reimbursable_amount = n, reason = ''Within meal limit per Section 3.2''\<rparr>"

section \<open>The regular expression finds the earliest \<open>[\<close> through the last \<open>]\<close>\<close>

lemma longest_closing_None: "longest_closing cs = None \<longleftrightarrow> CHR '']'' \<notin> set cs"
  by (induction cs) (auto split: option.splits)

lemma longest_closing_last:
  "CHR '']'' \<notin> set post \<Longrightarrow> longest_closing (mid @ CHR '']'' # post) = Some (mid @ [CHR '']''])"
  by (induction mid) (simp_all add: longest_closing_None [THEN iffD2])

lemma re_search_array_located:
  "CHR ''['' \<notin> set pre \<Longrightarrow> CHR '']'' \<notin> set post \<Longrightarrow>
   re_search_array (pre @ CHR ''['' # mid @ CHR '']'' # post) = Some (CHR ''['' # mid @ [CHR '']''])"
  by (induction pre) (auto simp: longest_closing_last)

lemma longest_closing_Some:
  "longest_closing cs = Some m \<Longrightarrow> \<exists>mid post. cs = mid @ CHR '']'' # post \<and> m = mid @ [CHR '']''] \<and> CHR '']'' \<notin> set post"
proof (induction cs arbitrary: m)
  case Nil
  then show ?case by simp
next
  case (Cons c cs)
  show ?case
  proof (cases "longest_closing cs")
    case None
    with Cons.prems have "c = CHR '']''" "m = [c]" by (auto split: if_splits)
    moreover from None have "CHR '']'' \<notin> set cs" by (simp add: longest_closing_None)
    ultimately show ?thesis by (intro exI [of _ "[]"] exI [of _ cs]) simp
  next
    case (Some m')
    with Cons.prems have m: "m = c # m'" by simp
    from Cons.IH [OF Some] obtain mid post where
      "cs = mid @ CHR '']'' # post" "m' = mid @ [CHR '']'']" "CHR '']'' \<notin> set post" by blast
    with m show ?thesis by (intro exI [of _ "c # mid"] exI [of _ post]) simp
  qed
qed

lemma re_search_array_Some:
  "re_search_array s = Some m \<Longrightarrow>
   \<exists>pre mid post. s = pre @ m @ post \<and> m = CHR ''['' # mid @ [CHR '']'']
     \<and> CHR ''['' \<notin> set pre \<and> CHR '']'' \<notin> set post"
proof (induction s)
  case Nil
  then show ?case by simp
next
  case (Cons c s)
  show ?case
  proof (cases "c = CHR ''['' \<and> longest_closing s \<noteq> None")
    case True
    then obtain m' where m': "longest_closing s = Some m'" by auto
    with True Cons.prems have m: "m = c # m'" by simp
    from longest_closing_Some [OF m'] obtain mid post where
      "s = mid @ CHR '']'' # post" "m' = mid @ [CHR '']'']" "CHR '']'' \<notin> set post" by blast
    with m True show ?thesis
      by (intro exI [of _ "[]"] exI [of _ mid] exI [of _ post]) simp
  next
    case False
    then have rec: "re_search_array s = Some m"
      using Cons.prems by (auto split: option.splits if_splits)
    from Cons.IH [OF rec] obtain pre mid post where
      s: "s = pre @ m @ post" "m = CHR ''['' # mid @ [CHR '']'']"
         "CHR ''['' \<notin> set pre" "CHR '']'' \<notin> set post" by blast
    have "c \<noteq> CHR ''[''"
    proof
      assume c: "c = CHR ''[''"
      with False have "CHR '']'' \<notin> set s" by (simp add: longest_closing_None)
      with s show False by simp
    qed
    with s show ?thesis
      by (intro exI [of _ "c # pre"] exI [of _ mid] exI [of _ post]) simp
  qed
qed

lemma re_search_array_None:
  "re_search_array s = None \<longleftrightarrow>
   \<not> (\<exists>i j. i < j \<and> j < length s \<and> s ! i = CHR ''['' \<and> s ! j = CHR '']'')"
proof
  assume none: "re_search_array s = None"
  show "\<not> (\<exists>i j. i < j \<and> j < length s \<and> s ! i = CHR ''['' \<and> s ! j = CHR '']'')"
  proof
    assume "\<exists>i j. i < j \<and> j < length s \<and> s ! i = CHR ''['' \<and> s ! j = CHR '']''"
    then obtain i j where ij: "i < j" "j < length s" "s ! i = CHR ''[''" "s ! j = CHR '']''" by blast
    from ij have "i < length s" by simp
    then have "s ! i \<in> set s" by (rule nth_mem)
    with ij have "CHR ''['' \<in> set s" by simp
    from split_list_first [OF this] obtain pre rest where
      s: "s = pre @ CHR ''['' # rest" and pre: "CHR ''['' \<notin> set pre" by blast
    have le: "length pre \<le> i"
    proof (rule ccontr)
      assume "\<not> length pre \<le> i"
      then have lt: "i < length pre" by simp
      then have "pre ! i \<in> set pre" by (rule nth_mem)
      moreover have "s ! i = pre ! i" using lt by (simp add: s nth_append)
      ultimately show False using pre ij by simp
    qed
    with ij have lt: "length pre < j" by simp
    have len: "length s = length pre + 1 + length rest" by (simp add: s)
    have "s ! j = rest ! (j - length pre - 1)"
      using lt by (simp add: s nth_append nth_Cons')
    moreover have "j - length pre - 1 < length rest" using ij lt len by simp
    ultimately have "s ! j \<in> set rest" by simp
    with ij have "CHR '']'' \<in> set rest" by simp
    from split_list_last [OF this] obtain mid post where
      rest: "rest = mid @ CHR '']'' # post" and post: "CHR '']'' \<notin> set post" by blast
    have "re_search_array (pre @ CHR ''['' # mid @ CHR '']'' # post) = Some (CHR ''['' # mid @ [CHR '']''])"
      by (rule re_search_array_located [OF pre post])
    with none s rest show False by simp
  qed
next
  assume no: "\<not> (\<exists>i j. i < j \<and> j < length s \<and> s ! i = CHR ''['' \<and> s ! j = CHR '']'')"
  show "re_search_array s = None"
  proof (rule ccontr)
    assume "re_search_array s \<noteq> None"
    then obtain m where "re_search_array s = Some m" by auto
    from re_search_array_Some [OF this] obtain pre mid post where
      s: "s = pre @ m @ post" and m: "m = CHR ''['' # mid @ [CHR '']'']" by blast
    have s': "s = pre @ CHR ''['' # mid @ CHR '']'' # post" by (simp add: s m)
    have a: "s ! length pre = CHR ''[''" by (subst s') (simp add: nth_append)
    have b: "s ! (length pre + length mid + 1) = CHR '']''"
      by (subst s') (simp add: nth_append nth_Cons')
    have c: "length pre + length mid + 1 < length s" by (subst s') simp
    have d: "length pre < length pre + length mid + 1" by simp
    from no a b c d show False by blast
  qed
qed


section \<open>What the components raise\<close>

lemma extract_text_from_pdf_raises:
  "extract_text_from_pdf env b = Inl e \<Longrightarrow> \<exists>m. e = HTTPException 400 (''Error extracting PDF text: '' @ m)"
  by (auto simp: extract_text_from_pdf_def split: sum.splits)

lemma extract_invoices_from_zip_raises:
  "extract_invoices_from_zip env b = Inl e \<Longrightarrow> \<exists>m. e = HTTPException 400 (''Error processing ZIP file: '' @ m)"
  by (auto simp: extract_invoices_from_zip_def split: sum.splits)

lemma analyze_invoices_with_llm_raises:
  "analyze_invoices_with_llm env p i = Inl e \<Longrightarrow> \<exists>m. e = HTTPException 500 (''LLM analysis failed: '' @ m)"
  by (auto simp: analyze_invoices_with_llm_def split: sum.splits)

lemma analyze_invoices_to_model:
  assumes "request_loads env hr_policy invoices_zip policy_text invoices" and "invoices \<noteq> []"
  shows "analyze_invoices env hr_policy invoices_zip =
    ((case analyze_invoices_with_llm env policy_text invoices of
        Inl e \<Rightarrow> Inl e
      | Inr results \<Rightarrow> Inr \<lparr>analyses = results, total_invoices_processed = int (length results)\<rparr>),
     [ReadPolicy, ExtractPolicyText, ReadArchive, LoadInvoices, ModelAnalysis])"
proof -
  from assms obtain pb zb where
    names: "endswith (lower (upload_filename hr_policy)) ''.pdf''"
           "endswith (lower (upload_filename invoices_zip)) ''.zip''"
    and pb: "upload_read hr_policy = Inr pb" "extract_text_from_pdf env pb = Inr policy_text"
    and ne: "strip policy_text \<noteq> []"
    and zb: "upload_read invoices_zip = Inr zb" "extract_invoices_from_zip env zb = Inr invoices"
    by (auto simp: request_loads_def split: sum.splits)
  show ?thesis
  proof (cases "analyze_invoices_with_llm env policy_text invoices")
    case (Inl e)
    from analyze_invoices_with_llm_raises [OF Inl] have "is_HTTPException e" by auto
    with Inl names pb ne zb assms(2) show ?thesis
      by (simp add: analyze_invoices_def analyze_invoices_try_def step_def raised_def)
  next
    case (Inr rs)
    with names pb ne zb assms(2) show ?thesis
      by (simp add: analyze_invoices_def analyze_invoices_try_def step_def raised_def)
  qed
qed

lemma analyze_invoices_no_invoices:
  assumes "request_loads env hr_policy invoices_zip policy_text []"
  shows "analyze_invoices env hr_policy invoices_zip =
    (Inl (HTTPException 400 ''No PDF invoices found in ZIP file''),
     [ReadPolicy, ExtractPolicyText, ReadArchive, LoadInvoices])"
proof -
  from assms obtain pb zb where
    names: "endswith (lower (upload_filename hr_policy)) ''.pdf''"
           "endswith (lower (upload_filename invoices_zip)) ''.zip''"
    and pb: "upload_read hr_policy = Inr pb" "extract_text_from_pdf env pb = Inr policy_text"
    and ne: "strip policy_text \<noteq> []"
    and zb: "upload_read invoices_zip = Inr zb" "extract_invoices_from_zip env zb = Inr []"
    by (auto simp: request_loads_def split: sum.splits)
  then show ?thesis
    by (simp add: analyze_invoices_def analyze_invoices_try_def step_def raised_def)
qed

section \<open>The response parser\<close>

lemma convert_all_Inr:
  "convert_all env xs acc = Inr rs \<longleftrightarrow>
   (\<exists>as. rs = acc @ as \<and> list_all2 (\<lambda>x a. to_analysis env x = Inr a) xs as)"
proof (induction xs arbitrary: acc)
  case Nil
  then show ?case by auto
next
  case (Cons x xs)
  show ?case
  proof (cases "to_analysis env x")
    case (Inl e)
    then show ?thesis by (auto simp: list_all2_Cons1)
  next
    case (Inr a)
    then show ?thesis by (auto simp: Cons.IH list_all2_Cons1)
  qed
qed

lemma to_analysis_amount:
  "to_analysis env x = Inr r \<Longrightarrow>
   \<exists>v. getitem x ''reimbursable_amount'' = Inr v \<and> py_int env v = Inr (reimbursable_amount r)"
  by (auto simp: to_analysis_def InvoiceAnalysis_init_def split: sum.splits option.splits)

lemma trunc_towards_zero:
  "\<bar>of_int (trunc q)\<bar> \<le> \<bar>q\<bar> \<and> \<bar>q - of_int (trunc q)\<bar> < 1"
proof (cases "0 \<le> q")
  case True
  then have a: "0 \<le> \<lfloor>q\<rfloor>" by simp
  then have a': "(0::rat) \<le> of_int \<lfloor>q\<rfloor>" by simp
  have b: "of_int \<lfloor>q\<rfloor> \<le> q" and c: "q < of_int \<lfloor>q\<rfloor> + 1" by linarith+
  have t: "trunc q = \<lfloor>q\<rfloor>" using True by (simp add: trunc_def)
  show ?thesis unfolding t using True a' b c by linarith
next
  case False
  then have a: "\<lceil>q\<rceil> \<le> 0" by (simp add: ceiling_le_zero)
  then have a': "(of_int \<lceil>q\<rceil> :: rat) \<le> 0" by simp
  have b: "q \<le> of_int \<lceil>q\<rceil>" and c: "of_int \<lceil>q\<rceil> < q + 1" by linarith+
  have t: "trunc q = \<lceil>q\<rceil>" using False by (simp add: trunc_def)
  show ?thesis unfolding t using False a' b c by linarith
qed

lemma parse_response_located:
  assumes "CHR ''['' \<notin> set pre" and "CHR '']'' \<notin> set post"
    and "hd arr = CHR ''[''" and "last arr = CHR '']''" and "2 \<le> length arr"
  shows "re_search_array (pre @ arr @ post) = Some arr"
proof -
  from assms(5) obtain c rest where arr: "arr = c # rest" and rest: "rest \<noteq> []"
    by (cases arr) (auto simp: Suc_le_eq)
  from rest have "rest = butlast rest @ [last rest]" by simp
  moreover from arr rest assms(4) have "last rest = CHR '']''" by simp
  moreover from arr assms(3) have "c = CHR ''[''" by simp
  ultimately have arr': "arr = CHR ''['' # butlast rest @ [CHR '']'']" using arr by simp
  have "re_search_array (pre @ CHR ''['' # butlast rest @ CHR '']'' # post) = Some (CHR ''['' # butlast rest @ [CHR '']''])"
    by (rule re_search_array_located [OF assms(1,2)])
  then show ?thesis by (subst (1 2) arr') simp
qed

section \<open>The archive loader\<close>

lemma load_members_keys:
  assumes "list_all (member_loads env) (filter is_invoice ms)" and "distinct (map fst acc)"
  shows "\<exists>inv. load_members env ms acc = Inr inv \<and> distinct (map fst inv)
     \<and> fst ` set inv = fst ` set acc \<union> filename ` {m \<in> set ms. is_invoice m}"
  using assms
proof (induction ms arbitrary: acc)
  case Nil
  then show ?case by simp
next
  case (Cons m ms)
  show ?case
  proof (cases "is_invoice m")
    case False
    with Cons.prems have "list_all (member_loads env) (filter is_invoice ms)" by simp
    from Cons.IH [OF this Cons.prems(2)] False show ?thesis by auto
  next
    case True
    with Cons.prems have ok: "member_loads env m"
      and rest: "list_all (member_loads env) (filter is_invoice ms)" by simp_all
    from ok obtain pdf t where
      r: "member_read m = Inr pdf" and t: "extract_text_from_pdf env pdf = Inr t"
      by (auto simp: member_loads_def split: sum.splits)
    have d: "distinct (map fst (AList.update (filename m) t acc))"
      using Cons.prems(2) by (rule distinct_update)
    from Cons.IH [OF rest d] obtain inv where
      inv: "load_members env ms (AList.update (filename m) t acc) = Inr inv"
      "distinct (map fst inv)"
      "fst ` set inv = fst ` set (AList.update (filename m) t acc) \<union> filename ` {m \<in> set ms. is_invoice m}"
      by blast
    have "load_members env (m # ms) acc = Inr inv"
      using True r t inv(1) by (simp add: raised_def)
    moreover have "fst ` set inv = fst ` set acc \<union> filename ` {x \<in> set (m # ms). is_invoice x}"
      using inv(3) True by (auto simp: dom_update)
    ultimately show ?thesis using inv(2) by blast
  qed
qed

lemma filter_known_key:
  "k \<in> A \<Longrightarrow> filter (\<lambda>x. x \<notin> A) (filter (\<lambda>y. y \<noteq> k) xs) = filter (\<lambda>x. x \<notin> A) xs"
  by (induction xs) auto

lemma filter_new_key:
  "filter (\<lambda>x. x \<notin> insert k A) xs = filter (\<lambda>x. x \<notin> A) (filter (\<lambda>y. y \<noteq> k) xs)"
  by (induction xs) auto

lemma last_invoice_Cons:
  "last_invoice (m # ms) path =
     (case last_invoice ms path of
        Some m' \<Rightarrow> Some m'
      | None \<Rightarrow> if is_invoice m \<and> filename m = path then Some m else None)"
  by (auto simp: last_invoice_def split: list.splits)

lemma load_members_values:
  assumes "load_members env ms acc = Inr loaded"
  shows "map_of loaded path =
     (case last_invoice ms path of None \<Rightarrow> map_of acc path | Some m \<Rightarrow> member_text env m)"
  using assms
proof (induction ms arbitrary: acc)
  case Nil
  then show ?case by (simp add: last_invoice_def)
next
  case (Cons m ms)
  show ?case
  proof (cases "is_invoice m")
    case False
    with Cons.prems have "load_members env ms acc = Inr loaded" by simp
    from Cons.IH [OF this] False show ?thesis
      by (simp add: last_invoice_Cons split: option.splits)
  next
    case True
    with Cons.prems obtain pdf t where
      r: "member_read m = Inr pdf" and t: "extract_text_from_pdf env pdf = Inr t"
      and l: "load_members env ms (AList.update (filename m) t acc) = Inr loaded"
      by (auto simp: raised_def split: sum.splits)
    from r t have mt: "member_text env m = Some t" by (simp add: member_text_def)
    from Cons.IH [OF l] True mt show ?thesis
      by (simp add: last_invoice_Cons update_conv' split: option.splits)
  qed
qed

lemma load_members_order:
  assumes "load_members env ms acc = Inr loaded"
  shows "map fst loaded = map fst acc
     @ filter (\<lambda>k. k \<notin> set (map fst acc)) (first_occurrences (map filename (filter is_invoice ms)))"
  using assms
proof (induction ms arbitrary: acc)
  case Nil
  then show ?case by simp
next
  case (Cons m ms)
  show ?case
  proof (cases "is_invoice m")
    case False
    with Cons.prems have "load_members env ms acc = Inr loaded" by simp
    from Cons.IH [OF this] False show ?thesis by simp
  next
    case True
    with Cons.prems obtain pdf t where
      l: "load_members env ms (AList.update (filename m) t acc) = Inr loaded"
      by (auto simp: raised_def split: sum.splits)
    let ?k = "filename m"
    let ?rest = "first_occurrences (map filename (filter is_invoice ms))"
    note ih = Cons.IH [OF l]
    show ?thesis
    proof (cases "?k \<in> set (map fst acc)")
      case in_acc: True
      then have keys: "map fst (AList.update ?k t acc) = map fst acc" by (simp add: update_keys)
      have "filter (\<lambda>k. k \<notin> set (map fst acc)) (filter (\<lambda>y. y \<noteq> ?k) ?rest)
          = filter (\<lambda>k. k \<notin> set (map fst acc)) ?rest"
        using in_acc by (rule filter_known_key)
      with ih keys True in_acc show ?thesis by simp
    next
      case not_in: False
      then have keys: "map fst (AList.update ?k t acc) = map fst acc @ [?k]"
        by (simp add: update_keys)
      have "filter (\<lambda>k. k \<notin> set (map fst acc @ [?k])) ?rest
          = filter (\<lambda>k. k \<notin> set (map fst acc)) (filter (\<lambda>y. y \<noteq> ?k) ?rest)"
        using filter_new_key [of ?k "set (map fst acc)" ?rest] by simp
      with ih keys True not_in show ?thesis by simp
    qed
  qed
qed

lemma load_members_member_fails:
  assumes "list_all (member_loads env) (filter is_invoice ms)"
    and "is_invoice m" and "member_read m = Inr pdf" and "extract_text_from_pdf env pdf = Inl e"
  shows "load_members env (ms @ m # rest) acc = Inl e"
  using assms
  by (induction ms arbitrary: acc) (auto simp: member_loads_def raised_def split: sum.splits)

lemma extract_invoices_from_zip_member_fails:
  assumes "ZipFile env b = Inr (ms @ m # rest)"
    and "list_all (member_loads env) (filter is_invoice ms)"
    and "is_invoice m" and "member_read m = Inr pdf" and "extract_text_from_pdf env pdf = Inl e"
  shows "extract_invoices_from_zip env b
     = Inl (HTTPException 400 (''Error processing ZIP file: '' @ exc_str env e))"
proof -
  from extract_text_from_pdf_raises [OF assms(5)] obtain msg where
    "e = HTTPException 400 (''Error extracting PDF text: '' @ msg)" by blast
  then have "py_str env e = exc_str env e" by (simp add: py_str_def)
  with load_members_member_fails [OF assms(2-5)] assms(1) show ?thesis
    by (simp add: extract_invoices_from_zip_def raised_def)
qed

text \<open>
  Claim C1. When the archive opens and the text extraction of a member fails, the loader
  is said to signal the extraction error (``Error extracting PDF text: ...'') rather than
  the archive error. The evaluation below is the code on an archive whose only member is
  not a PDF: \<open>extract_text_from_pdf\<close> raises the extraction error, an \<open>HTTPException\<close>, and
  the \<open>except Exception\<close> clause of \<open>extract_invoices_from_zip\<close> catches it and raises the
  archive error, with \<open>str\<close> of the caught exception as its message. The load is
  aborted and no mapping is returned. By \<open>extract_invoices_from_zip_member_fails\<close> this
  is so in every environment, for the first member whose extraction fails.
\<close>

theorem C1_member_failure_is_rewrapped:
  "ZipFile (sample_env []) ''PK broken member''
     = Inr [\<lparr>filename = ''a.pdf'', member_read = Inr ''not a pdf''\<rparr>]
   \<and> extract_text_from_pdf (sample_env []) ''not a pdf''
     = Inl (HTTPException 400 ''Error extracting PDF text: EOF marker not found'')
   \<and> extract_invoices_from_zip (sample_env []) ''PK broken member''
     = Inl (HTTPException 400
         ''Error processing ZIP file: 400: Error extracting PDF text: EOF marker not found'')"
  by code_simp

text \<open>
  Claim C3, as stated, promises exactly \<open>N\<close> entries for an archive with \<open>N\<close> PDF members.
  An archive may list the same path twice; the dictionary keeps one entry per path, the
  later member's text replacing the earlier one's: two PDF members, one entry.
\<close>

theorem C3_counterexample:
  "ZipFile (sample_env []) ''PK twice''
     = Inr [\<lparr>filename = ''a.pdf'', member_read = Inr ''%PDF lunch''\<rparr>,
            \<lparr>filename = ''a.pdf'', member_read = Inr ''%PDF dinner''\<rparr>]
   \<and> length (filter is_invoice
        [\<lparr>filename = ''a.pdf'', member_read = Inr ''%PDF lunch''\<rparr>,
         \<lparr>filename = ''a.pdf'', member_read = Inr ''%PDF dinner''\<rparr>]) = 2
   \<and> extract_invoices_from_zip (sample_env []) ''PK twice'' = Inr [(''a.pdf'', ''Dinner 80'')]
   \<and> length [(''a.pdf'', ''Dinner 80'')] = (1::nat)"
  by code_simp

text \<open>
  Claim C3, amended. For an archive that opens and whose PDF members (names ending in
  \<open>.pdf\<close>, compared in lower case) are all read and extracted, the loader returns a
  mapping whose keys are exactly the recorded paths of the PDF members, one entry per
  distinct path: exactly \<open>N\<close> entries when the \<open>N\<close> paths are pairwise distinct. No member
  that is not a PDF has an entry. Each path is mapped to the text extracted from the last
  PDF member listed under it, and the entries stand in the order in which the paths first
  occur in the archive.
\<close>

theorem C3_loader_mapping:
  assumes "ZipFile env b = Inr ms"
    and "list_all (member_loads env) (filter is_invoice ms)"
  shows "\<exists>invoices. extract_invoices_from_zip env b = Inr invoices
     \<and> distinct (map fst invoices)
     \<and> set (map fst invoices) = filename ` {m \<in> set ms. is_invoice m}
     \<and> length invoices = card (filename ` {m \<in> set ms. is_invoice m})
     \<and> (distinct (map filename (filter is_invoice ms))
          \<longrightarrow> length invoices = length (filter is_invoice ms))
     \<and> (\<forall>m \<in> set ms. \<not> is_invoice m \<longrightarrow> filename m \<notin> set (map fst invoices))
     \<and> map fst invoices = first_occurrences (map filename (filter is_invoice ms))
     \<and> (\<forall>path. map_of invoices path
           = (case last_invoice ms path of None \<Rightarrow> None | Some m \<Rightarrow> member_text env m))"
proof -
  have "distinct (map fst ([] :: (string \<times> string) list))" by simp
  from load_members_keys [OF assms(2) this] obtain loaded where
    l: "load_members env ms [] = Inr loaded" and d: "distinct (map fst loaded)"
    and k: "fst ` set loaded = fst ` set ([] :: (string \<times> string) list) \<union> filename ` {m \<in> set ms. is_invoice m}"
    by blast
  have res: "extract_invoices_from_zip env b = Inr loaded"
    by (simp add: extract_invoices_from_zip_def raised_def assms(1) l)
  have keys: "set (map fst loaded) = filename ` {m \<in> set ms. is_invoice m}"
    using k by simp
  have "card (set (map fst loaded)) = length (map fst loaded)" using d by (rule distinct_card)
  then have len: "length loaded = card (filename ` {m \<in> set ms. is_invoice m})"
    by (simp only: keys length_map)
  have names: "set (map filename (filter is_invoice ms)) = filename ` {m \<in> set ms. is_invoice m}"
    by simp
  have dist: "distinct (map filename (filter is_invoice ms))
      \<longrightarrow> length loaded = length (filter is_invoice ms)"
  proof
    assume "distinct (map filename (filter is_invoice ms))"
    then have "card (set (map filename (filter is_invoice ms))) = length (map filename (filter is_invoice ms))"
      by (rule distinct_card)
    then have "card (filename ` {m \<in> set ms. is_invoice m}) = length (filter is_invoice ms)"
      by (simp only: names length_map)
    with len show "length loaded = length (filter is_invoice ms)" by simp
  qed
  have non: "\<forall>m \<in> set ms. \<not> is_invoice m \<longrightarrow> filename m \<notin> set (map fst loaded)"
  proof (intro ballI impI notI)
    fix m assume m: "\<not> is_invoice m" and "filename m \<in> set (map fst loaded)"
    then have "filename m \<in> filename ` {m \<in> set ms. is_invoice m}" by (simp only: keys)
    then obtain m' where "is_invoice m'" and "filename m = filename m'" by blast
    with m show False by simp
  qed
  have ord: "map fst loaded = first_occurrences (map filename (filter is_invoice ms))"
    using load_members_order [OF l] by simp
  have val: "\<forall>path. map_of loaded path
           = (case last_invoice ms path of None \<Rightarrow> None | Some m \<Rightarrow> member_text env m)"
  proof
    fix path
    show "map_of loaded path
           = (case last_invoice ms path of None \<Rightarrow> None | Some m \<Rightarrow> member_text env m)"
      using load_members_values [OF l, of path] by (simp split: option.splits)
  qed
  show ?thesis
    by (rule exI [of _ loaded]) (intro conjI res d keys len dist non ord val)
qed

text \<open>
  An archive with one PDF member (its extension in upper case) and one text file; then
  the archive that lists \<open>a.pdf\<close> twice, whose entry holds the second member's text.
\<close>

theorem C3_witness:
  "ZipFile (sample_env []) ''PK one''
     = Inr [\<lparr>filename = ''inv/A.PDF'', member_read = Inr ''%PDF lunch''\<rparr>,
            \<lparr>filename = ''notes.txt'', member_read = Inr ''hello''\<rparr>]
   \<and> list_all (member_loads (sample_env []))
        (filter is_invoice [\<lparr>filename = ''inv/A.PDF'', member_read = Inr ''%PDF lunch''\<rparr>,
                            \<lparr>filename = ''notes.txt'', member_read = Inr ''hello''\<rparr>])
   \<and> extract_invoices_from_zip (sample_env []) ''PK one'' = Inr [(''inv/A.PDF'', ''Lunch 50'')]
   \<and> (\<exists>invoices. extract_invoices_from_zip (sample_env []) ''PK one'' = Inr invoices
        \<and> distinct (map fst invoices)
        \<and> length invoices = card (filename ` {m \<in> set
            [\<lparr>filename = ''inv/A.PDF'', member_read = Inr ''%PDF lunch''\<rparr>,
             \<lparr>filename = ''notes.txt'', member_read = Inr ''hello''\<rparr>]. is_invoice m}))
   \<and> ZipFile (sample_env []) ''PK twice''
     = Inr [\<lparr>filename = ''a.pdf'', member_read = Inr ''%PDF lunch''\<rparr>,
            \<lparr>filename = ''a.pdf'', member_read = Inr ''%PDF dinner''\<rparr>]
   \<and> list_all (member_loads (sample_env []))
        (filter is_invoice [\<lparr>filename = ''a.pdf'', member_read = Inr ''%PDF lunch''\<rparr>,
                            \<lparr>filename = ''a.pdf'', member_read = Inr ''%PDF dinner''\<rparr>])
   \<and> (\<exists>invoices. extract_invoices_from_zip (sample_env []) ''PK twice'' = Inr invoices
        \<and> map fst invoices = [''a.pdf'']
        \<and> map_of invoices ''a.pdf'' = Some ''Dinner 80'')"
proof -
  have h: "ZipFile (sample_env []) ''PK one''
     = Inr [\<lparr>filename = ''inv/A.PDF'', member_read = Inr ''%PDF lunch''\<rparr>,
            \<lparr>filename = ''notes.txt'', member_read = Inr ''hello''\<rparr>]"
    "list_all (member_loads (sample_env []))
        (filter is_invoice [\<lparr>filename = ''inv/A.PDF'', member_read = Inr ''%PDF lunch''\<rparr>,
                            \<lparr>filename = ''notes.txt'', member_read = Inr ''hello''\<rparr>])"
    by code_simp+
  have r: "extract_invoices_from_zip (sample_env []) ''PK one'' = Inr [(''inv/A.PDF'', ''Lunch 50'')]"
    by code_simp
  from C3_loader_mapping [OF h] have one:
    "\<exists>invoices. extract_invoices_from_zip (sample_env []) ''PK one'' = Inr invoices
        \<and> distinct (map fst invoices)
        \<and> length invoices = card (filename ` {m \<in> set
            [\<lparr>filename = ''inv/A.PDF'', member_read = Inr ''%PDF lunch''\<rparr>,
             \<lparr>filename = ''notes.txt'', member_read = Inr ''hello''\<rparr>]. is_invoice m})"
    by (elim exE conjE, intro exI conjI)
  have h2: "ZipFile (sample_env []) ''PK twice''
     = Inr [\<lparr>filename = ''a.pdf'', member_read = Inr ''%PDF lunch''\<rparr>,
            \<lparr>filename = ''a.pdf'', member_read = Inr ''%PDF dinner''\<rparr>]"
    "list_all (member_loads (sample_env []))
        (filter is_invoice [\<lparr>filename = ''a.pdf'', member_read = Inr ''%PDF lunch''\<rparr>,
                            \<lparr>filename = ''a.pdf'', member_read = Inr ''%PDF dinner''\<rparr>])"
    by code_simp+
  have o: "first_occurrences (map filename (filter is_invoice
       [\<lparr>filename = ''a.pdf'', member_read = Inr ''%PDF lunch''\<rparr>,
        \<lparr>filename = ''a.pdf'', member_read = Inr ''%PDF dinner''\<rparr>])) = [''a.pdf'']"
    by code_simp
  have v: "(case last_invoice [\<lparr>filename = ''a.pdf'', member_read = Inr ''%PDF lunch''\<rparr>,
        \<lparr>filename = ''a.pdf'', member_read = Inr ''%PDF dinner''\<rparr>] ''a.pdf'' of
       None \<Rightarrow> None | Some m \<Rightarrow> member_text (sample_env []) m) = Some ''Dinner 80''"
    by code_simp
  from C3_loader_mapping [OF h2] obtain invoices where
    x: "extract_invoices_from_zip (sample_env []) ''PK twice'' = Inr invoices"
    and xo: "map fst invoices = first_occurrences (map filename (filter is_invoice
       [\<lparr>filename = ''a.pdf'', member_read = Inr ''%PDF lunch''\<rparr>,
        \<lparr>filename = ''a.pdf'', member_read = Inr ''%PDF dinner''\<rparr>]))"
    and xv: "\<forall>path. map_of invoices path
       = (case last_invoice [\<lparr>filename = ''a.pdf'', member_read = Inr ''%PDF lunch''\<rparr>,
            \<lparr>filename = ''a.pdf'', member_read = Inr ''%PDF dinner''\<rparr>] path of
          None \<Rightarrow> None | Some m \<Rightarrow> member_text (sample_env []) m)"
    by (elim exE conjE) (rule that)
  from xo o have xo': "map fst invoices = [''a.pdf'']" by (rule trans)
  from xv have "map_of invoices ''a.pdf''
       = (case last_invoice [\<lparr>filename = ''a.pdf'', member_read = Inr ''%PDF lunch''\<rparr>,
            \<lparr>filename = ''a.pdf'', member_read = Inr ''%PDF dinner''\<rparr>] ''a.pdf'' of
          None \<Rightarrow> None | Some m \<Rightarrow> member_text (sample_env []) m)" by (rule spec)
  then have xv': "map_of invoices ''a.pdf'' = Some ''Dinner 80''" using v by (rule trans)
  have twice: "\<exists>invoices. extract_invoices_from_zip (sample_env []) ''PK twice'' = Inr invoices
        \<and> map fst invoices = [''a.pdf'']
        \<and> map_of invoices ''a.pdf'' = Some ''Dinner 80''"
    by (rule exI [of _ invoices]) (intro conjI x xo' xv')
  show ?thesis by (intro conjI h r one h2 twice)
qed

section \<open>Claims on the response parser\<close>

text \<open>
  Claim C2, as stated, lets the prose around the array be arbitrary. The text
  \<open>[note] []\<close> contains exactly one well-formed JSON array, \<open>[]\<close> at positions 7 to 8, but
  the regular expression matches from the first \<open>[\<close> to the last \<open>]\<close>, the whole text, which
  \<open>json.loads\<close> rejects: the parser raises instead of returning the array's elements.
\<close>

theorem C2_counterexample:
  "json_arrays (sample_env []) ''[note] []'' = [(7, 8)]
   \<and> json_loads (sample_env []) ''[]'' = Inr (PyList [])
   \<and> re_search_array ''[note] []'' = Some ''[note] []''
   \<and> parse_response (sample_env []) ''[note] []'' = Inl (Error ''Expecting value: line 1 column 2 (char 1)'')"
  by code_simp

text \<open>
  Claim C2, amended. When the prose before a well-formed JSON array holds no \<open>[\<close> and the
  prose after it no \<open>]\<close>, the parser locates exactly that array, decodes it, and converts
  its elements in order: it returns the records \<open>rs\<close> exactly when each element converts
  to the record at its position (and raises when an element is rejected).
\<close>

theorem C2_array_located_and_decoded:
  assumes "CHR ''['' \<notin> set pre" and "CHR '']'' \<notin> set post"
    and "hd arr = CHR ''[''" and "last arr = CHR '']''" and "2 \<le> length arr"
    and "json_loads env arr = Inr (PyList xs)"
  shows "re_search_array (pre @ arr @ post) = Some arr
     \<and> parse_response env (pre @ arr @ post) = convert_all env xs []
     \<and> (\<forall>rs. parse_response env (pre @ arr @ post) = Inr rs
            \<longleftrightarrow> list_all2 (\<lambda>x r. to_analysis env x = Inr r) xs rs)"
proof -
  have loc: "re_search_array (pre @ arr @ post) = Some arr"
    using assms(1-5) by (rule parse_response_located)
  with assms(6) have "parse_response env (pre @ arr @ post) = convert_all env xs []"
    by (simp add: parse_response_def analyses_data_def raised_def)
  with loc show ?thesis by (simp add: convert_all_Inr)
qed

text \<open>The array of the specification's scenario A, between two sentences.\<close>

theorem C2_witness:
  "CHR ''['' \<notin> set ''Here is the analysis: '' \<and> CHR '']'' \<notin> set '' Done.''
   \<and> hd (sample_text ''50'') = CHR ''['' \<and> last (sample_text ''50'') = CHR '']''
   \<and> 2 \<le> length (sample_text ''50'')
   \<and> json_loads (sample_env []) (sample_text ''50'') = Inr (PyList [sample_element (PyInt 50)])
   \<and> re_search_array (''Here is the analysis: '' @ sample_text ''50'' @ '' Done.'') = Some (sample_text ''50'')
   \<and> parse_response (sample_env []) (''Here is the analysis: '' @ sample_text ''50'' @ '' Done.'')
       = Inr [sample_analysis 50]"
proof -
  have h: "CHR ''['' \<notin> set ''Here is the analysis: ''" "CHR '']'' \<notin> set '' Done.''"
    "hd (sample_text ''50'') = CHR ''[''" "last (sample_text ''50'') = CHR '']''"
    "2 \<le> length (sample_text ''50'')"
    "json_loads (sample_env []) (sample_text ''50'') = Inr (PyList [sample_element (PyInt 50)])"
    by code_simp+
  have c: "convert_all (sample_env []) [sample_element (PyInt 50)] [] = Inr [sample_analysis 50]"
    by code_simp
  from C2_array_located_and_decoded [OF h] h c show ?thesis by simp
qed

text \<open>
  Claim C4, as stated, says an accepted \<open>reimbursable_amount\<close> is never negative. The
  code converts with \<open>int\<close> and the field is declared \<open>int\<close> with no bound: an amount of
  \<open>-5\<close> is accepted.
\<close>

theorem C4_counterexample:
  "parse_response (sample_env []) (sample_text ''-5'') = Inr [sample_analysis (- 5)]
   \<and> reimbursable_amount (sample_analysis (- 5)) < 0"
  by code_simp

text \<open>
  Claim C4, amended. Every record the parser accepts has as \<open>reimbursable_amount\<close> the
  integer that \<open>int\<close> makes of the value the element supplies under that key; an integer
  supplied is stored as it is, whatever its sign.
\<close>

theorem C4_amount_is_int_of_supplied_value:
  assumes "parse_response env text = Inr rs"
  shows "\<exists>data elements. analyses_data env text = Inr data \<and> py_iter data = Inr elements
     \<and> list_all2 (\<lambda>x r. \<exists>v. getitem x ''reimbursable_amount'' = Inr v
           \<and> py_int env v = Inr (reimbursable_amount r)
           \<and> (\<forall>n. v = PyInt n \<longrightarrow> reimbursable_amount r = n)) elements rs"
proof -
  from assms obtain data elements where
    d: "analyses_data env text = Inr data" and i: "py_iter data = Inr elements"
    and c: "convert_all env elements [] = Inr rs"
    by (auto simp: parse_response_def raised_def split: sum.splits)
  from c have "list_all2 (\<lambda>x r. to_analysis env x = Inr r) elements rs"
    by (simp add: convert_all_Inr)
  then have "list_all2 (\<lambda>x r. \<exists>v. getitem x ''reimbursable_amount'' = Inr v
           \<and> py_int env v = Inr (reimbursable_amount r)
           \<and> (\<forall>n. v = PyInt n \<longrightarrow> reimbursable_amount r = n)) elements rs"
  proof (rule list_all2_mono)
    fix x r assume "to_analysis env x = Inr r"
    from to_analysis_amount [OF this] obtain v where
      v: "getitem x ''reimbursable_amount'' = Inr v" "py_int env v = Inr (reimbursable_amount r)"
      by blast
    then have "\<forall>n. v = PyInt n \<longrightarrow> reimbursable_amount r = n" by auto
    with v show "\<exists>v. getitem x ''reimbursable_amount'' = Inr v
           \<and> py_int env v = Inr (reimbursable_amount r)
           \<and> (\<forall>n. v = PyInt n \<longrightarrow> reimbursable_amount r = n)" by blast
  qed
  with d i show ?thesis by blast
qed

text \<open>The amended claim on the element with the amount \<open>-5\<close>.\<close>

theorem C4_witness:
  "parse_response (sample_env []) (sample_text ''-5'') = Inr [sample_analysis (- 5)]
   \<and> (\<exists>data elements. analyses_data (sample_env []) (sample_text ''-5'') = Inr data
        \<and> py_iter data = Inr elements
        \<and> list_all2 (\<lambda>x r. \<exists>v. getitem x ''reimbursable_amount'' = Inr v
             \<and> py_int (sample_env []) v = Inr (reimbursable_amount r)
             \<and> (\<forall>n. v = PyInt n \<longrightarrow> reimbursable_amount r = n)) elements [sample_analysis (- 5)])"
proof -
  have h: "parse_response (sample_env []) (sample_text ''-5'') = Inr [sample_analysis (- 5)]"
    by code_simp
  from C4_amount_is_int_of_supplied_value [OF h] h show ?thesis by blast
qed

text \<open>
  Claim C5, as stated, speaks of the JSON number. \<open>json.loads\<close> first decodes it to the
  nearest double: \<open>42.99999999999999999\<close> is fractional and its integer part is 42, but it
  decodes to \<open>43.0\<close>, and the record stores 43.
\<close>

theorem C5_counterexample:
  "analyses_data (sample_env []) (sample_text ''42.99999999999999999'')
     = Inr (PyList [sample_element (PyFloat (Finite 43))])
   \<and> parse_response (sample_env []) (sample_text ''42.99999999999999999'') = Inr [sample_analysis 43]
   \<and> decimal_value ''42.99999999999999999'' = Some (4299999999999999999 / 100000000000000000)
   \<and> trunc (4299999999999999999 / 100000000000000000) = 42
   \<and> reimbursable_amount (sample_analysis 43) \<noteq> trunc (4299999999999999999 / 100000000000000000)"
  by code_simp

text \<open>
  Claim C5, amended. When the parser accepts a response and the element at position \<open>i\<close>
  supplies, as decoded by \<open>json.loads\<close>, a finite float \<open>q\<close> as \<open>reimbursable_amount\<close>, the
  record at position \<open>i\<close> stores \<open>q\<close> truncated towards zero: an integer no larger than \<open>q\<close>
  in absolute value and less than one away from it.
\<close>

theorem C5_fraction_truncated_towards_zero:
  assumes "parse_response env text = Inr rs"
    and "analyses_data env text = Inr data" and "py_iter data = Inr elements"
    and "i < length elements"
    and "getitem (elements ! i) ''reimbursable_amount'' = Inr (PyFloat (Finite q))"
  shows "i < length rs \<and> reimbursable_amount (rs ! i) = trunc q
     \<and> \<bar>of_int (reimbursable_amount (rs ! i))\<bar> \<le> \<bar>q\<bar>
     \<and> \<bar>q - of_int (reimbursable_amount (rs ! i))\<bar> < 1"
proof -
  from assms(1-3) have "convert_all env elements [] = Inr rs"
    by (simp add: parse_response_def raised_def)
  then have all: "list_all2 (\<lambda>x r. to_analysis env x = Inr r) elements rs"
    by (simp add: convert_all_Inr)
  then have len: "length rs = length elements" by (simp add: list_all2_lengthD)
  from all assms(4) have "to_analysis env (elements ! i) = Inr (rs ! i)"
    by (rule list_all2_nthD)
  from to_analysis_amount [OF this] assms(5)
  have "py_int env (PyFloat (Finite q)) = Inr (reimbursable_amount (rs ! i))" by simp
  then have "reimbursable_amount (rs ! i) = trunc q" by simp
  with len assms(4) trunc_towards_zero [of q] show ?thesis by simp
qed

text \<open>The element with the amount \<open>42.9\<close> is accepted with the amount 42.\<close>

theorem C5_witness:
  "parse_response (sample_env []) (sample_text ''42.9'') = Inr [sample_analysis 42]
   \<and> analyses_data (sample_env []) (sample_text ''42.9'')
       = Inr (PyList [sample_element (PyFloat (Finite (6037638250443571 / 140737488355328)))])
   \<and> py_iter (PyList [sample_element (PyFloat (Finite (6037638250443571 / 140737488355328)))])
       = Inr [sample_element (PyFloat (Finite (6037638250443571 / 140737488355328)))]
   \<and> (0::nat) < length [sample_element (PyFloat (Finite (6037638250443571 / 140737488355328)))]
   \<and> getitem ([sample_element (PyFloat (Finite (6037638250443571 / 140737488355328)))] ! 0)
        ''reimbursable_amount'' = Inr (PyFloat (Finite (6037638250443571 / 140737488355328)))
   \<and> reimbursable_amount ([sample_analysis 42] ! 0) = trunc (6037638250443571 / 140737488355328)
   \<and> trunc (6037638250443571 / 140737488355328) = 42"
proof -
  have h: "parse_response (sample_env []) (sample_text ''42.9'') = Inr [sample_analysis 42]"
    "analyses_data (sample_env []) (sample_text ''42.9'')
       = Inr (PyList [sample_element (PyFloat (Finite (6037638250443571 / 140737488355328)))])"
    "py_iter (PyList [sample_element (PyFloat (Finite (6037638250443571 / 140737488355328)))])
       = Inr [sample_element (PyFloat (Finite (6037638250443571 / 140737488355328)))]"
    "(0::nat) < length [sample_element (PyFloat (Finite (6037638250443571 / 140737488355328)))]"
    "getitem ([sample_element (PyFloat (Finite (6037638250443571 / 140737488355328)))] ! 0)
        ''reimbursable_amount'' = Inr (PyFloat (Finite (6037638250443571 / 140737488355328)))"
    by code_simp+
  have t: "trunc (6037638250443571 / 140737488355328) = 42" by code_simp
  from C5_fraction_truncated_towards_zero [OF h] h t show ?thesis by simp
qed

section \<open>Claims on the orchestrator\<close>

text \<open>
  Nothing before the model analysis looks at \<open>generate_content\<close>: replacing it changes
  neither what the extractor and the loader return nor whether a request loads.
\<close>

lemma py_str_generate_content: "py_str (env\<lparr>generate_content := g\<rparr>) e = py_str env e"
  by (cases e) (simp_all add: py_str_def)

lemma extract_text_from_pdf_generate_content:
  "extract_text_from_pdf (env\<lparr>generate_content := g\<rparr>) b = extract_text_from_pdf env b"
  by (simp add: extract_text_from_pdf_def py_str_generate_content cong: sum.case_cong)

lemma load_members_generate_content:
  "load_members (env\<lparr>generate_content := g\<rparr>) ms acc = load_members env ms acc"
  by (induction ms arbitrary: acc)
     (simp_all add: extract_text_from_pdf_generate_content cong: sum.case_cong)

lemma extract_invoices_from_zip_generate_content:
  "extract_invoices_from_zip (env\<lparr>generate_content := g\<rparr>) b = extract_invoices_from_zip env b"
  by (simp add: extract_invoices_from_zip_def load_members_generate_content
      py_str_generate_content cong: sum.case_cong)

lemma request_loads_generate_content:
  "request_loads (env\<lparr>generate_content := g\<rparr>) p z t i = request_loads env p z t i"
  by (simp add: request_loads_def extract_text_from_pdf_generate_content
      extract_invoices_from_zip_generate_content cong: sum.case_cong)

lemma analyze_invoices_Inr:
  assumes "analyze_invoices env hr_policy invoices_zip = (Inr response, evs)"
  shows "\<exists>policy_text invoices. request_loads env hr_policy invoices_zip policy_text invoices
       \<and> invoices \<noteq> []
       \<and> analyze_invoices_with_llm env policy_text invoices = Inr (analyses response)
       \<and> total_invoices_processed response = int (length (analyses response))"
proof -
  from assms have names: "endswith (lower (upload_filename hr_policy)) ''.pdf''"
    "endswith (lower (upload_filename invoices_zip)) ''.zip''"
    by (auto simp: analyze_invoices_def split: if_splits)
  with assms have t: "analyze_invoices_try env hr_policy invoices_zip = (Inr response, evs)"
    by (auto simp: analyze_invoices_def split: if_splits sum.splits prod.splits)
  from t obtain pb where pb: "upload_read hr_policy = Inr pb"
    by (cases "upload_read hr_policy") (auto simp: analyze_invoices_try_def step_def raised_def)
  from t pb obtain pt where pt: "extract_text_from_pdf env pb = Inr pt"
    by (cases "extract_text_from_pdf env pb")
       (auto simp: analyze_invoices_try_def step_def raised_def)
  from t pb pt have ne: "strip pt \<noteq> []"
    by (auto simp: analyze_invoices_try_def step_def raised_def)
  from t pb pt ne obtain zb where zb: "upload_read invoices_zip = Inr zb"
    by (cases "upload_read invoices_zip")
       (auto simp: analyze_invoices_try_def step_def raised_def)
  from t pb pt ne zb obtain inv where inv: "extract_invoices_from_zip env zb = Inr inv"
    by (cases "extract_invoices_from_zip env zb")
       (auto simp: analyze_invoices_try_def step_def raised_def)
  from t pb pt ne zb inv have ie: "inv \<noteq> []"
    by (auto simp: analyze_invoices_try_def step_def raised_def)
  from t pb pt ne zb inv ie obtain rs where rs: "analyze_invoices_with_llm env pt inv = Inr rs"
    by (cases "analyze_invoices_with_llm env pt inv")
       (auto simp: analyze_invoices_try_def step_def raised_def)
  from t pb pt ne zb inv ie rs have
    r: "response = \<lparr>analyses = rs, total_invoices_processed = int (length rs)\<rparr>"
    by (auto simp: analyze_invoices_try_def step_def raised_def)
  have "request_loads env hr_policy invoices_zip pt inv"
    by (simp add: request_loads_def names pb pt ne zb inv)
  with ie rs r show ?thesis by (intro exI [of _ pt] exI [of _ inv]) simp
qed

lemma analyze_invoices_handlers:
  assumes "endswith (lower (upload_filename hr_policy)) ''.pdf''"
    and "endswith (lower (upload_filename invoices_zip)) ''.zip''"
    and "analyze_invoices_try env hr_policy invoices_zip = (Inl e, evs)"
  shows "analyze_invoices env hr_policy invoices_zip =
     (Inl (if is_HTTPException e then e
           else HTTPException 500 (''Internal server error: '' @ py_str env e)), evs)"
  using assms by (simp add: analyze_invoices_def)

text \<open>
  Claim C6, as stated, rejects every request whose policy name does not end in \<open>.pdf\<close>.
  The code compares the lower-cased name: \<open>POLICY.PDF\<close> does not end in \<open>.pdf\<close>, yet the
  request passes the check, both uploads are read and the analysis is returned.
\<close>

theorem C6_counterexample:
  "\<not> endswith ''POLICY.PDF'' ''.pdf''
   \<and> analyze_invoices (sample_env (sample_text ''50''))
        \<lparr>upload_filename = ''POLICY.PDF'', upload_read = Inr ''%PDF policy''\<rparr>
        (sample_archive ''PK one'')
     = (Inr \<lparr>analyses = [sample_analysis 50], total_invoices_processed = 1\<rparr>,
        [ReadPolicy, ExtractPolicyText, ReadArchive, LoadInvoices, ModelAnalysis])"
  by code_simp

text \<open>
  Claim C6, amended. When the policy name, lower-cased, does not end in \<open>.pdf\<close>, or the
  archive name, lower-cased, does not end in \<open>.zip\<close>, \<open>analyze_invoices\<close> raises
  \<open>HTTPException\<close> 400 with the message of the violated check (the policy's first), and the
  log is empty: no upload was read and no component called.
\<close>

theorem C6_file_type_rejected_first:
  assumes "\<not> endswith (lower (upload_filename hr_policy)) ''.pdf''
         \<or> \<not> endswith (lower (upload_filename invoices_zip)) ''.zip''"
  shows "analyze_invoices env hr_policy invoices_zip =
     (Inl (HTTPException 400
        (if \<not> endswith (lower (upload_filename hr_policy)) ''.pdf''
         then ''HR policy must be a PDF file'' else ''Invoices must be in a ZIP file'')), [])"
  using assms by (auto simp: analyze_invoices_def)

text \<open>A policy named \<open>policy.docx\<close>; an archive named \<open>invoices.rar\<close>.\<close>

theorem C6_witness:
  "\<not> endswith (lower (upload_filename \<lparr>upload_filename = ''policy.docx'', upload_read = Inr ''%PDF policy''\<rparr>)) ''.pdf''
   \<and> analyze_invoices (sample_env (sample_text ''50''))
        \<lparr>upload_filename = ''policy.docx'', upload_read = Inr ''%PDF policy''\<rparr>
        (sample_archive ''PK one'')
     = (Inl (HTTPException 400 ''HR policy must be a PDF file''), [])
   \<and> \<not> endswith (lower (upload_filename \<lparr>upload_filename = ''invoices.rar'', upload_read = Inr ''PK one''\<rparr>)) ''.zip''
   \<and> analyze_invoices (sample_env (sample_text ''50'')) sample_policy
        \<lparr>upload_filename = ''invoices.rar'', upload_read = Inr ''PK one''\<rparr>
     = (Inl (HTTPException 400 ''Invoices must be in a ZIP file''), [])"
proof -
  have a: "\<not> endswith (lower (upload_filename \<lparr>upload_filename = ''policy.docx'', upload_read = Inr ''%PDF policy''\<rparr>)) ''.pdf''"
    by code_simp
  have b: "\<not> endswith (lower (upload_filename \<lparr>upload_filename = ''invoices.rar'', upload_read = Inr ''PK one''\<rparr>)) ''.zip''"
    by code_simp
  have c: "endswith (lower (upload_filename sample_policy)) ''.pdf''" by code_simp
  from C6_file_type_rejected_first [OF disjI1, OF a] C6_file_type_rejected_first [OF disjI2, OF b] a b c
  show ?thesis by simp
qed

text \<open>
  Claim C7. When the request loads and the invoice mapping is empty, \<open>analyze_invoices\<close>
  raises \<open>HTTPException\<close> 400 ``No PDF invoices found in ZIP file''; the log ends with the
  loading of the archive and holds no model analysis, and the outcome is the same whatever
  the model would have answered.
\<close>

theorem C7_no_invoices_no_model_call:
  assumes "request_loads env hr_policy invoices_zip policy_text []"
  shows "analyze_invoices env hr_policy invoices_zip =
       (Inl (HTTPException 400 ''No PDF invoices found in ZIP file''),
        [ReadPolicy, ExtractPolicyText, ReadArchive, LoadInvoices])
     \<and> ModelAnalysis \<notin> set (snd (analyze_invoices env hr_policy invoices_zip))
     \<and> (\<forall>g. analyze_invoices (env\<lparr>generate_content := g\<rparr>) hr_policy invoices_zip
            = analyze_invoices env hr_policy invoices_zip)"
proof -
  note r = analyze_invoices_no_invoices [OF assms]
  have "\<And>g. request_loads (env\<lparr>generate_content := g\<rparr>) hr_policy invoices_zip policy_text []"
    using assms by (simp add: request_loads_generate_content)
  then have "\<And>g. analyze_invoices (env\<lparr>generate_content := g\<rparr>) hr_policy invoices_zip
     = (Inl (HTTPException 400 ''No PDF invoices found in ZIP file''),
        [ReadPolicy, ExtractPolicyText, ReadArchive, LoadInvoices])"
    by (rule analyze_invoices_no_invoices)
  with r show ?thesis by simp
qed

text \<open>An archive whose only member is a text file.\<close>

theorem C7_witness:
  "request_loads (sample_env (sample_text ''50'')) sample_policy (sample_archive ''PK no pdf'')
     sample_policy_text []
   \<and> analyze_invoices (sample_env (sample_text ''50'')) sample_policy (sample_archive ''PK no pdf'')
     = (Inl (HTTPException 400 ''No PDF invoices found in ZIP file''),
        [ReadPolicy, ExtractPolicyText, ReadArchive, LoadInvoices])
   \<and> ModelAnalysis \<notin> set (snd (analyze_invoices (sample_env (sample_text ''50'')) sample_policy
        (sample_archive ''PK no pdf'')))"
proof -
  have h: "request_loads (sample_env (sample_text ''50'')) sample_policy (sample_archive ''PK no pdf'')
     sample_policy_text []"
    by code_simp
  from C7_no_invoices_no_model_call [OF h] h show ?thesis by simp
qed

text \<open>
  Claim C8. When the model's text has no \<open>[\<close> followed later by a \<open>]\<close> and \<open>json.loads\<close>
  rejects it with the message \<open>m\<close>, the parser raises that error,
  \<open>analyze_invoices_with_llm\<close> raises \<open>HTTPException\<close> 500 ``LLM analysis failed: m'', and
  a request that reached the model ends with that exception.
\<close>

theorem C8_no_json_is_500:
  assumes "\<not> (\<exists>i j. i < j \<and> j < length text \<and> text ! i = CHR ''['' \<and> text ! j = CHR '']'')"
    and "json_loads env text = Inl m"
    and "generate_content env (combined_prompt policy_text invoices) = Inr text"
    and "request_loads env hr_policy invoices_zip policy_text invoices" and "invoices \<noteq> []"
  shows "parse_response env text = Inl (Error m)
     \<and> analyze_invoices_with_llm env policy_text invoices
         = Inl (HTTPException 500 (''LLM analysis failed: '' @ m))
     \<and> fst (analyze_invoices env hr_policy invoices_zip)
         = Inl (HTTPException 500 (''LLM analysis failed: '' @ m))"
proof -
  from assms(1) have "re_search_array text = None" by (simp add: re_search_array_None)
  with assms(2) have p: "parse_response env text = Inl (Error m)"
    by (simp add: parse_response_def analyses_data_def raised_def)
  with assms(3) have a: "analyze_invoices_with_llm env policy_text invoices
         = Inl (HTTPException 500 (''LLM analysis failed: '' @ m))"
    by (simp add: analyze_invoices_with_llm_def raised_def py_str_def)
  from analyze_invoices_to_model [OF assms(4,5)] a p show ?thesis by simp
qed

text \<open>The model answers \<open>I cannot determine this.\<close>\<close>

theorem C8_witness:
  "\<not> (\<exists>i j. i < j \<and> j < length ''I cannot determine this.''
        \<and> ''I cannot determine this.'' ! i = CHR ''['' \<and> ''I cannot determine this.'' ! j = CHR '']'')
   \<and> json_loads (sample_env ''I cannot determine this.'') ''I cannot determine this.''
       = Inl ''Expecting value: line 1 column 1 (char 0)''
   \<and> request_loads (sample_env ''I cannot determine this.'') sample_policy (sample_archive ''PK one'')
       sample_policy_text [(''inv/A.PDF'', ''Lunch 50'')]
   \<and> parse_response (sample_env ''I cannot determine this.'') ''I cannot determine this.''
       = Inl (Error ''Expecting value: line 1 column 1 (char 0)'')
   \<and> fst (analyze_invoices (sample_env ''I cannot determine this.'') sample_policy (sample_archive ''PK one''))
       = Inl (HTTPException 500 ''LLM analysis failed: Expecting value: line 1 column 1 (char 0)'')"
proof -
  have "re_search_array ''I cannot determine this.'' = None" by code_simp
  then have h1: "\<not> (\<exists>i j. i < j \<and> j < length ''I cannot determine this.''
        \<and> ''I cannot determine this.'' ! i = CHR ''['' \<and> ''I cannot determine this.'' ! j = CHR '']'')"
    by (rule re_search_array_None [THEN iffD1])
  have h2: "json_loads (sample_env ''I cannot determine this.'') ''I cannot determine this.''
       = Inl ''Expecting value: line 1 column 1 (char 0)''" by code_simp
  have h3: "generate_content (sample_env ''I cannot determine this.'')
       (combined_prompt sample_policy_text [(''inv/A.PDF'', ''Lunch 50'')])
       = Inr ''I cannot determine this.''" by (simp add: sample_env_def)
  have h4: "request_loads (sample_env ''I cannot determine this.'') sample_policy (sample_archive ''PK one'')
       sample_policy_text [(''inv/A.PDF'', ''Lunch 50'')]" by code_simp
  have h5: "[(''inv/A.PDF'', ''Lunch 50'')] \<noteq> ([] :: (string \<times> string) list)" by simp
  note r = C8_no_json_is_500 [OF h1 h2 h3 h4 h5]
  from r have p: "parse_response (sample_env ''I cannot determine this.'') ''I cannot determine this.''
       = Inl (Error ''Expecting value: line 1 column 1 (char 0)'')" by (rule conjunct1)
  from r have c: "fst (analyze_invoices (sample_env ''I cannot determine this.'') sample_policy (sample_archive ''PK one''))
       = Inl (HTTPException 500 ''LLM analysis failed: Expecting value: line 1 column 1 (char 0)'')"
    by simp
  show ?thesis by (intro conjI h1 h2 h4 p c)
qed

text \<open>
  Claim C9. Every response \<open>analyze_invoices\<close> returns has
  \<open>total_invoices_processed\<close> equal to the length of \<open>analyses\<close>, and \<open>analyses\<close> is what
  the model analysis returned: the count is that of the parsed records, not of the
  invoices in the archive.
\<close>

theorem C9_total_is_length_of_analyses:
  assumes "analyze_invoices env hr_policy invoices_zip = (Inr response, evs)"
  shows "total_invoices_processed response = int (length (analyses response))
     \<and> (\<exists>policy_text invoices. request_loads env hr_policy invoices_zip policy_text invoices
           \<and> analyze_invoices_with_llm env policy_text invoices = Inr (analyses response))"
  using analyze_invoices_Inr [OF assms] by blast

text \<open>
  One invoice and one record; then one invoice and the model answering \<open>[]\<close>: no record,
  and a count of 0.
\<close>

theorem C9_witness:
  "analyze_invoices (sample_env (sample_text ''50'')) sample_policy (sample_archive ''PK one'')
     = (Inr \<lparr>analyses = [sample_analysis 50], total_invoices_processed = 1\<rparr>,
        [ReadPolicy, ExtractPolicyText, ReadArchive, LoadInvoices, ModelAnalysis])
   \<and> total_invoices_processed \<lparr>analyses = [sample_analysis 50], total_invoices_processed = 1\<rparr>
       = int (length (analyses \<lparr>analyses = [sample_analysis 50], total_invoices_processed = 1\<rparr>))
   \<and> analyze_invoices (sample_env ''[]'') sample_policy (sample_archive ''PK one'')
     = (Inr \<lparr>analyses = [], total_invoices_processed = 0\<rparr>,
        [ReadPolicy, ExtractPolicyText, ReadArchive, LoadInvoices, ModelAnalysis])
   \<and> total_invoices_processed \<lparr>analyses = [], total_invoices_processed = 0\<rparr>
       = int (length (analyses \<lparr>analyses = [], total_invoices_processed = 0\<rparr>))"
proof -
  have a: "analyze_invoices (sample_env (sample_text ''50'')) sample_policy (sample_archive ''PK one'')
     = (Inr \<lparr>analyses = [sample_analysis 50], total_invoices_processed = 1\<rparr>,
        [ReadPolicy, ExtractPolicyText, ReadArchive, LoadInvoices, ModelAnalysis])"
    by code_simp
  have b: "analyze_invoices (sample_env ''[]'') sample_policy (sample_archive ''PK one'')
     = (Inr \<lparr>analyses = [], total_invoices_processed = 0\<rparr>,
        [ReadPolicy, ExtractPolicyText, ReadArchive, LoadInvoices, ModelAnalysis])"
    by code_simp
  from C9_total_is_length_of_analyses [OF a] C9_total_is_length_of_analyses [OF b] a b
  show ?thesis by (intro conjI) (erule conjunct1 | assumption)+
qed

text \<open>
  Claim C10. Once both names are accepted: an \<open>HTTPException\<close> raised in the \<open>try\<close> block
  is the outcome, with its status code and detail, and any other exception becomes
  \<open>HTTPException\<close> 500 ``Internal server error: ...''. Component by component: the
  exception of the text extractor, of the archive loader and of the model analysis, and
  the two checks on an empty policy text and an empty mapping, all reach the caller
  unchanged; an upload that cannot be read gives the 500.
\<close>

theorem C10_http_exceptions_pass_unchanged:
  assumes "endswith (lower (upload_filename hr_policy)) ''.pdf''"
    and "endswith (lower (upload_filename invoices_zip)) ''.zip''"
  shows
   "(\<forall>c d evs. analyze_invoices_try env hr_policy invoices_zip = (Inl (HTTPException c d), evs)
        \<longrightarrow> analyze_invoices env hr_policy invoices_zip = (Inl (HTTPException c d), evs))
  \<and> (\<forall>e evs. analyze_invoices_try env hr_policy invoices_zip = (Inl e, evs) \<and> \<not> is_HTTPException e
        \<longrightarrow> analyze_invoices env hr_policy invoices_zip
            = (Inl (HTTPException 500 (''Internal server error: '' @ py_str env e)), evs))
  \<and> (\<forall>pb e. upload_read hr_policy = Inr pb \<and> extract_text_from_pdf env pb = Inl e
        \<longrightarrow> fst (analyze_invoices env hr_policy invoices_zip) = Inl e)
  \<and> (\<forall>pb pt. upload_read hr_policy = Inr pb \<and> extract_text_from_pdf env pb = Inr pt \<and> strip pt = []
        \<longrightarrow> fst (analyze_invoices env hr_policy invoices_zip)
            = Inl (HTTPException 400 ''Could not extract text from policy PDF''))
  \<and> (\<forall>pb pt zb e. upload_read hr_policy = Inr pb \<and> extract_text_from_pdf env pb = Inr pt
          \<and> strip pt \<noteq> [] \<and> upload_read invoices_zip = Inr zb
          \<and> extract_invoices_from_zip env zb = Inl e
        \<longrightarrow> fst (analyze_invoices env hr_policy invoices_zip) = Inl e)
  \<and> (\<forall>pt. request_loads env hr_policy invoices_zip pt []
        \<longrightarrow> fst (analyze_invoices env hr_policy invoices_zip)
            = Inl (HTTPException 400 ''No PDF invoices found in ZIP file''))
  \<and> (\<forall>pt inv e. request_loads env hr_policy invoices_zip pt inv \<and> inv \<noteq> []
          \<and> analyze_invoices_with_llm env pt inv = Inl e
        \<longrightarrow> fst (analyze_invoices env hr_policy invoices_zip) = Inl e)
  \<and> (\<forall>m. upload_read hr_policy = Inl m
        \<longrightarrow> fst (analyze_invoices env hr_policy invoices_zip)
            = Inl (HTTPException 500 (''Internal server error: '' @ m)))
  \<and> (\<forall>pb pt m. upload_read hr_policy = Inr pb \<and> extract_text_from_pdf env pb = Inr pt
          \<and> strip pt \<noteq> [] \<and> upload_read invoices_zip = Inl m
        \<longrightarrow> fst (analyze_invoices env hr_policy invoices_zip)
            = Inl (HTTPException 500 (''Internal server error: '' @ m)))"
proof -
  note h = analyze_invoices_handlers [OF assms]
  have c1: "\<forall>c d evs. analyze_invoices_try env hr_policy invoices_zip = (Inl (HTTPException c d), evs)
        \<longrightarrow> analyze_invoices env hr_policy invoices_zip = (Inl (HTTPException c d), evs)"
    by (auto dest: h)
  have c2: "\<forall>e evs. analyze_invoices_try env hr_policy invoices_zip = (Inl e, evs) \<and> \<not> is_HTTPException e
        \<longrightarrow> analyze_invoices env hr_policy invoices_zip
            = (Inl (HTTPException 500 (''Internal server error: '' @ py_str env e)), evs)"
    by (auto dest: h)
  have c3: "\<forall>pb e. upload_read hr_policy = Inr pb \<and> extract_text_from_pdf env pb = Inl e
        \<longrightarrow> fst (analyze_invoices env hr_policy invoices_zip) = Inl e"
  proof (intro allI impI, elim conjE)
    fix pb e assume a: "upload_read hr_policy = Inr pb" "extract_text_from_pdf env pb = Inl e"
    then have "analyze_invoices_try env hr_policy invoices_zip = (Inl e, [ReadPolicy, ExtractPolicyText])"
      by (simp add: analyze_invoices_try_def step_def raised_def)
    moreover from extract_text_from_pdf_raises [OF a(2)] have "is_HTTPException e" by auto
    ultimately show "fst (analyze_invoices env hr_policy invoices_zip) = Inl e"
      by (simp add: h)
  qed
  have c4: "\<forall>pb pt. upload_read hr_policy = Inr pb \<and> extract_text_from_pdf env pb = Inr pt \<and> strip pt = []
        \<longrightarrow> fst (analyze_invoices env hr_policy invoices_zip)
            = Inl (HTTPException 400 ''Could not extract text from policy PDF'')"
  proof (intro allI impI, elim conjE)
    fix pb pt assume "upload_read hr_policy = Inr pb" "extract_text_from_pdf env pb = Inr pt" "strip pt = []"
    then have "analyze_invoices_try env hr_policy invoices_zip
        = (Inl (HTTPException 400 ''Could not extract text from policy PDF''), [ReadPolicy, ExtractPolicyText])"
      by (simp add: analyze_invoices_try_def step_def raised_def)
    then show "fst (analyze_invoices env hr_policy invoices_zip)
            = Inl (HTTPException 400 ''Could not extract text from policy PDF'')"
      by (simp add: h)
  qed
  have c5: "\<forall>pb pt zb e. upload_read hr_policy = Inr pb \<and> extract_text_from_pdf env pb = Inr pt
          \<and> strip pt \<noteq> [] \<and> upload_read invoices_zip = Inr zb
          \<and> extract_invoices_from_zip env zb = Inl e
        \<longrightarrow> fst (analyze_invoices env hr_policy invoices_zip) = Inl e"
  proof (intro allI impI, elim conjE)
    fix pb pt zb e
    assume a: "upload_read hr_policy = Inr pb" "extract_text_from_pdf env pb = Inr pt"
      "strip pt \<noteq> []" "upload_read invoices_zip = Inr zb"
      and b: "extract_invoices_from_zip env zb = Inl e"
    then have "analyze_invoices_try env hr_policy invoices_zip
        = (Inl e, [ReadPolicy, ExtractPolicyText, ReadArchive, LoadInvoices])"
      by (simp add: analyze_invoices_try_def step_def raised_def)
    moreover from extract_invoices_from_zip_raises [OF b] have "is_HTTPException e" by auto
    ultimately show "fst (analyze_invoices env hr_policy invoices_zip) = Inl e"
      by (simp add: h)
  qed
  have c6: "\<forall>pt. request_loads env hr_policy invoices_zip pt []
        \<longrightarrow> fst (analyze_invoices env hr_policy invoices_zip)
            = Inl (HTTPException 400 ''No PDF invoices found in ZIP file'')"
  proof (intro allI impI)
    fix pt assume "request_loads env hr_policy invoices_zip pt []"
    then show "fst (analyze_invoices env hr_policy invoices_zip)
            = Inl (HTTPException 400 ''No PDF invoices found in ZIP file'')"
      by (simp add: analyze_invoices_no_invoices)
  qed
  have c7: "\<forall>pt inv e. request_loads env hr_policy invoices_zip pt inv \<and> inv \<noteq> []
          \<and> analyze_invoices_with_llm env pt inv = Inl e
        \<longrightarrow> fst (analyze_invoices env hr_policy invoices_zip) = Inl e"
  proof (intro allI impI, elim conjE)
    fix pt inv e
    assume a: "request_loads env hr_policy invoices_zip pt inv" "inv \<noteq> []"
      and b: "analyze_invoices_with_llm env pt inv = Inl e"
    show "fst (analyze_invoices env hr_policy invoices_zip) = Inl e"
      by (simp add: analyze_invoices_to_model [OF a] b)
  qed
  have c8: "\<forall>m. upload_read hr_policy = Inl m
        \<longrightarrow> fst (analyze_invoices env hr_policy invoices_zip)
            = Inl (HTTPException 500 (''Internal server error: '' @ m))"
  proof (intro allI impI)
    fix m assume "upload_read hr_policy = Inl m"
    then have "analyze_invoices_try env hr_policy invoices_zip = (Inl (Error m), [ReadPolicy])"
      by (simp add: analyze_invoices_try_def step_def raised_def)
    then show "fst (analyze_invoices env hr_policy invoices_zip)
            = Inl (HTTPException 500 (''Internal server error: '' @ m))"
      by (simp add: h py_str_def)
  qed
  have c9: "\<forall>pb pt m. upload_read hr_policy = Inr pb \<and> extract_text_from_pdf env pb = Inr pt
          \<and> strip pt \<noteq> [] \<and> upload_read invoices_zip = Inl m
        \<longrightarrow> fst (analyze_invoices env hr_policy invoices_zip)
            = Inl (HTTPException 500 (''Internal server error: '' @ m))"
  proof (intro allI impI, elim conjE)
    fix pb pt m
    assume "upload_read hr_policy = Inr pb" "extract_text_from_pdf env pb = Inr pt"
      "strip pt \<noteq> []" "upload_read invoices_zip = Inl m"
    then have "analyze_invoices_try env hr_policy invoices_zip
        = (Inl (Error m), [ReadPolicy, ExtractPolicyText, ReadArchive])"
      by (simp add: analyze_invoices_try_def step_def raised_def)
    then show "fst (analyze_invoices env hr_policy invoices_zip)
            = Inl (HTTPException 500 (''Internal server error: '' @ m))"
      by (simp add: h py_str_def)
  qed
  show ?thesis by (intro conjI c1 c2 c3 c4 c5 c6 c7 c8 c9)
qed

text \<open>One request for each of the seven ways the block can fail.\<close>

theorem C10_witness:
  "analyze_invoices_try (sample_env []) sample_policy (sample_archive ''PK broken member'')
     = (Inl (HTTPException 400
          ''Error processing ZIP file: 400: Error extracting PDF text: EOF marker not found''),
        [ReadPolicy, ExtractPolicyText, ReadArchive, LoadInvoices])
   \<and> analyze_invoices (sample_env []) sample_policy (sample_archive ''PK broken member'')
     = (Inl (HTTPException 400
          ''Error processing ZIP file: 400: Error extracting PDF text: EOF marker not found''),
        [ReadPolicy, ExtractPolicyText, ReadArchive, LoadInvoices])
   \<and> analyze_invoices_try (sample_env []) (sample_policy_of (Inl ''connection lost''))
        (sample_archive ''PK one'') = (Inl (Error ''connection lost''), [ReadPolicy])
   \<and> \<not> is_HTTPException (Error ''connection lost'')
   \<and> analyze_invoices (sample_env []) (sample_policy_of (Inl ''connection lost''))
        (sample_archive ''PK one'')
     = (Inl (HTTPException 500 ''Internal server error: connection lost''), [ReadPolicy])
   \<and> extract_text_from_pdf (sample_env []) ''not a pdf''
     = Inl (HTTPException 400 ''Error extracting PDF text: EOF marker not found'')
   \<and> fst (analyze_invoices (sample_env []) (sample_policy_of (Inr ''not a pdf''))
        (sample_archive ''PK one''))
     = Inl (HTTPException 400 ''Error extracting PDF text: EOF marker not found'')
   \<and> extract_text_from_pdf (sample_env []) ''%PDF scan'' = Inr []
   \<and> fst (analyze_invoices (sample_env []) (sample_policy_of (Inr ''%PDF scan''))
        (sample_archive ''PK one''))
     = Inl (HTTPException 400 ''Could not extract text from policy PDF'')
   \<and> request_loads (sample_env []) sample_policy (sample_archive ''PK no pdf'') sample_policy_text []
   \<and> fst (analyze_invoices (sample_env []) sample_policy (sample_archive ''PK no pdf''))
     = Inl (HTTPException 400 ''No PDF invoices found in ZIP file'')
   \<and> request_loads (sample_env ''I cannot determine this.'') sample_policy (sample_archive ''PK one'')
        sample_policy_text [(''inv/A.PDF'', ''Lunch 50'')]
   \<and> analyze_invoices_with_llm (sample_env ''I cannot determine this.'') sample_policy_text
        [(''inv/A.PDF'', ''Lunch 50'')]
     = Inl (HTTPException 500 ''LLM analysis failed: Expecting value: line 1 column 1 (char 0)'')
   \<and> fst (analyze_invoices (sample_env ''I cannot determine this.'') sample_policy
        (sample_archive ''PK one''))
     = Inl (HTTPException 500 ''LLM analysis failed: Expecting value: line 1 column 1 (char 0)'')
   \<and> upload_read (sample_archive_of (Inl ''connection lost'')) = Inl ''connection lost''
   \<and> fst (analyze_invoices (sample_env []) sample_policy (sample_archive_of (Inl ''connection lost'')))
     = Inl (HTTPException 500 ''Internal server error: connection lost'')"
proof -
  have np: "endswith (lower (upload_filename sample_policy)) ''.pdf''"
    and npo: "\<And>r. endswith (lower (upload_filename (sample_policy_of r))) ''.pdf''"
    and nz: "\<And>b. endswith (lower (upload_filename (sample_archive b))) ''.zip''"
    and nzo: "\<And>r. endswith (lower (upload_filename (sample_archive_of r))) ''.zip''"
    by (simp_all add: sample_policy_def sample_policy_of_def sample_archive_def
        sample_archive_of_def endswith_def lower_def lower_char_def)
  \<comment> \<open>a member that is not a PDF\<close>
  have a1: "analyze_invoices_try (sample_env []) sample_policy (sample_archive ''PK broken member'')
     = (Inl (HTTPException 400
          ''Error processing ZIP file: 400: Error extracting PDF text: EOF marker not found''),
        [ReadPolicy, ExtractPolicyText, ReadArchive, LoadInvoices])"
    by code_simp
  from C10_http_exceptions_pass_unchanged [OF np nz [of "''PK broken member''"], where env = "sample_env []", THEN conjunct1, rule_format, OF a1]
  have a2: "analyze_invoices (sample_env []) sample_policy (sample_archive ''PK broken member'')
     = (Inl (HTTPException 400
          ''Error processing ZIP file: 400: Error extracting PDF text: EOF marker not found''),
        [ReadPolicy, ExtractPolicyText, ReadArchive, LoadInvoices])"
    by simp
  \<comment> \<open>the policy upload cannot be read\<close>
  have b1: "analyze_invoices_try (sample_env []) (sample_policy_of (Inl ''connection lost''))
        (sample_archive ''PK one'') = (Inl (Error ''connection lost''), [ReadPolicy])"
    by code_simp
  have b2: "\<not> is_HTTPException (Error ''connection lost'')" by simp
  from C10_http_exceptions_pass_unchanged [OF npo [of "Inl ''connection lost''"] nz [of "''PK one''"], where env = "sample_env []", THEN conjunct2, THEN conjunct1, rule_format, OF conjI [OF b1 b2]]
  have "analyze_invoices (sample_env []) (sample_policy_of (Inl ''connection lost''))
        (sample_archive ''PK one'')
     = (Inl (HTTPException 500 (''Internal server error: '' @ py_str (sample_env []) (Error ''connection lost''))), [ReadPolicy])"
    by simp
  then have b3: "analyze_invoices (sample_env []) (sample_policy_of (Inl ''connection lost''))
        (sample_archive ''PK one'')
     = (Inl (HTTPException 500 ''Internal server error: connection lost''), [ReadPolicy])"
    by (simp add: py_str_def)
  \<comment> \<open>the policy is not a PDF\<close>
  have c0: "upload_read (sample_policy_of (Inr ''not a pdf'')) = Inr ''not a pdf''"
    by (simp add: sample_policy_of_def)
  have c1: "extract_text_from_pdf (sample_env []) ''not a pdf''
     = Inl (HTTPException 400 ''Error extracting PDF text: EOF marker not found'')"
    by code_simp
  from C10_http_exceptions_pass_unchanged [OF npo [of "Inr ''not a pdf''"] nz [of "''PK one''"], where env = "sample_env []", THEN conjunct2, THEN conjunct2, THEN conjunct1, rule_format, OF conjI [OF c0 c1]]
  have c2: "fst (analyze_invoices (sample_env []) (sample_policy_of (Inr ''not a pdf''))
        (sample_archive ''PK one''))
     = Inl (HTTPException 400 ''Error extracting PDF text: EOF marker not found'')"
    by simp
  \<comment> \<open>the policy has no text\<close>
  have d0: "upload_read (sample_policy_of (Inr ''%PDF scan'')) = Inr ''%PDF scan''"
    by (simp add: sample_policy_of_def)
  have d1: "extract_text_from_pdf (sample_env []) ''%PDF scan'' = Inr []" by code_simp
  have d1': "strip [] = []" by (simp add: strip_def)
  from C10_http_exceptions_pass_unchanged [OF npo [of "Inr ''%PDF scan''"] nz [of "''PK one''"], where env = "sample_env []", THEN conjunct2, THEN conjunct2, THEN conjunct2, THEN conjunct1, rule_format, OF conjI [OF d0 conjI [OF d1 d1']]]
  have d2: "fst (analyze_invoices (sample_env []) (sample_policy_of (Inr ''%PDF scan''))
        (sample_archive ''PK one''))
     = Inl (HTTPException 400 ''Could not extract text from policy PDF'')"
    by simp
  \<comment> \<open>no PDF in the archive\<close>
  have e1: "request_loads (sample_env []) sample_policy (sample_archive ''PK no pdf'') sample_policy_text []"
    by code_simp
  from C10_http_exceptions_pass_unchanged [OF np nz [of "''PK no pdf''"], where env = "sample_env []", THEN conjunct2, THEN conjunct2, THEN conjunct2, THEN conjunct2, THEN conjunct2, THEN conjunct1, rule_format, OF e1]
  have e2: "fst (analyze_invoices (sample_env []) sample_policy (sample_archive ''PK no pdf''))
     = Inl (HTTPException 400 ''No PDF invoices found in ZIP file'')"
    by simp
  \<comment> \<open>the model answers without JSON\<close>
  have f1: "request_loads (sample_env ''I cannot determine this.'') sample_policy (sample_archive ''PK one'')
        sample_policy_text [(''inv/A.PDF'', ''Lunch 50'')]"
    by code_simp
  have f2: "analyze_invoices_with_llm (sample_env ''I cannot determine this.'') sample_policy_text
        [(''inv/A.PDF'', ''Lunch 50'')]
     = Inl (HTTPException 500 ''LLM analysis failed: Expecting value: line 1 column 1 (char 0)'')"
    by code_simp
  have f0: "[(''inv/A.PDF'', ''Lunch 50'')] \<noteq> ([] :: (string \<times> string) list)" by simp
  from C10_http_exceptions_pass_unchanged [OF np nz [of "''PK one''"], where env = "sample_env ''I cannot determine this.''", THEN conjunct2, THEN conjunct2, THEN conjunct2, THEN conjunct2, THEN conjunct2, THEN conjunct2, THEN conjunct1, rule_format, OF conjI [OF f1 conjI [OF f0 f2]]]
  have f3: "fst (analyze_invoices (sample_env ''I cannot determine this.'') sample_policy
        (sample_archive ''PK one''))
     = Inl (HTTPException 500 ''LLM analysis failed: Expecting value: line 1 column 1 (char 0)'')"
    by simp
  \<comment> \<open>the archive upload cannot be read\<close>
  have g0: "upload_read sample_policy = Inr ''%PDF policy''" by (simp add: sample_policy_def)
  have g1: "extract_text_from_pdf (sample_env []) ''%PDF policy'' = Inr sample_policy_text" by code_simp
  have g2: "strip sample_policy_text \<noteq> []" by code_simp
  have g3: "upload_read (sample_archive_of (Inl ''connection lost'')) = Inl ''connection lost''"
    by (simp add: sample_archive_of_def)
  from C10_http_exceptions_pass_unchanged [OF np nzo [of "Inl ''connection lost''"], where env = "sample_env []", THEN conjunct2, THEN conjunct2, THEN conjunct2, THEN conjunct2, THEN conjunct2, THEN conjunct2, THEN conjunct2, THEN conjunct2, rule_format, OF conjI [OF g0 conjI [OF g1 conjI [OF g2 g3]]]]
  have "fst (analyze_invoices (sample_env []) sample_policy (sample_archive_of (Inl ''connection lost'')))
     = Inl (HTTPException 500 (''Internal server error: '' @ ''connection lost''))"
    by simp
  then have g4: "fst (analyze_invoices (sample_env []) sample_policy (sample_archive_of (Inl ''connection lost'')))
     = Inl (HTTPException 500 ''Internal server error: connection lost'')"
    by simp
  show ?thesis by (intro conjI a1 a2 b1 b2 b3 c1 c2 d1 d2 e1 e2 f1 f2 f3 g3 g4)
qed

end
